theory Spec2Isabelle
  imports Complex_Main "HOL-Library.Sublist"
begin

section \<open>Python strings\<close>

text \<open>
  A Python \<open>str\<close> is a sequence of code points. The model uses \<open>string\<close>, whose
  characters are the code points below 256 (Latin-1), which covers every literal of
  \<open>scraper.py\<close> (\<open>\<acute>e\<close> in \<open>Post\<acute>e le\<close> is \<open>CHR 0xE9\<close>).
\<close>

definition isspace :: "char \<Rightarrow> bool" where
  \<comment> \<open>\<open>str.isspace\<close>, the whitespace of \<open>strip()\<close>, \<open>split()\<close> and the regex class \<open>\s\<close>\<close>
  "isspace c = (c \<in> set [CHR 0x09, CHR 0x0A, CHR 0x0B, CHR 0x0C, CHR 0x0D, CHR 0x1C,
                          CHR 0x1D, CHR 0x1E, CHR 0x1F, CHR 0x20, CHR 0x85, CHR 0xA0])"

definition isdigit :: "char \<Rightarrow> bool" where
  \<comment> \<open>the regex class \<open>\d\<close>\<close>
  "isdigit c = (c \<in> set ''0123456789'')"

definition lower_char :: "char \<Rightarrow> char" where
  \<comment> \<open>\<open>str.lower\<close> on one code point: A-Z, and U+00C0..U+00DE without U+00D7\<close>
  "lower_char c =
     (let n = (of_char c :: nat)
      in if (65 \<le> n \<and> n \<le> 90) \<or> (192 \<le> n \<and> n \<le> 222 \<and> n \<noteq> 215)
         then char_of (n + 32) else c)"

definition lower :: "string \<Rightarrow> string" where
  "lower s = map lower_char s"

definition strip :: "string \<Rightarrow> string" where
  \<comment> \<open>\<open>str.strip()\<close>\<close>
  "strip s = rev (dropWhile isspace (rev (dropWhile isspace s)))"

fun split_acc :: "string \<Rightarrow> string \<Rightarrow> string list" where
  "split_acc cur [] = (if cur = [] then [] else [cur])"
| "split_acc cur (c # cs) =
     (if isspace c then (if cur = [] then split_acc [] cs else cur # split_acc [] cs)
      else split_acc (cur @ [c]) cs)"

definition split_ws :: "string \<Rightarrow> string list" where
  \<comment> \<open>\<open>str.split()\<close> without arguments: the maximal runs of non-whitespace\<close>
  "split_ws s = split_acc [] s"

fun join :: "string \<Rightarrow> string list \<Rightarrow> string" where
  \<comment> \<open>\<open>sep.join(ws)\<close>\<close>
  "join sep [] = []"
| "join sep [w] = w"
| "join sep (w # ws) = w @ sep @ join sep ws"

fun replace :: "string \<Rightarrow> string \<Rightarrow> string \<Rightarrow> string" where
  \<comment> \<open>\<open>s.replace(old, new)\<close> for a non-empty \<open>old\<close>: the occurrences from left to
      right, without overlap\<close>
  "replace old new [] = []"
| "replace old new (c # cs) =
     (if old \<noteq> [] \<and> prefix old (c # cs)
      then new @ replace old new (drop (length old) (c # cs))
      else c # replace old new cs)"

definition punctuation :: "string" where
  \<comment> \<open>\<open>string.punctuation\<close>\<close>
  "punctuation = ''!'' @ [CHR 0x22] @ ''#$%&'' @ [CHR 0x27] @ ''()*+,-./:;<=>?@['' @
                 [CHR 0x5C] @ '']^_'' @ [CHR 0x60] @ ''{|}~''"

definition translate_delete :: "string \<Rightarrow> string \<Rightarrow> string" where
  \<comment> \<open>\<open>s.translate(str.maketrans('', '', deleted))\<close>\<close>
  "translate_delete deleted s = filter (\<lambda>c. c \<notin> set deleted) s"

section \<open>Title normalizer\<close>

definition normalize_title :: "string \<Rightarrow> string" where
  "normalize_title title =
     (if title = [] then []
      else
        let normalized = strip (lower title);
            deleted = replace ''.'' '''' (replace ''-'' '''' punctuation);
            normalized = translate_delete deleted normalized;
            normalized = join '' '' (split_ws normalized);
            normalized = replace ''rapport sur l'' ''rapport sur le'' normalized;
            normalized = replace ''  '' '' '' normalized
        in normalized)"

section \<open>Regular expressions\<close>

text \<open>
  The fragment of Python's \<open>re\<close> that the patterns of \<open>scraper.py\<close> use, with the
  backtracking semantics of \<open>re\<close>: \<open>rmatch\<close> lists the ways a pattern matches at the
  start of a string, the preferred way first (greedy repetition, the left alternative
  first), each with the captured groups and the text left over.
\<close>

datatype cls = Digit | Space

datatype regex =
    Lit string
  | Rep cls nat "nat option"
  | Seq regex regex
  | Alt regex regex
  | Opt regex
  | Group regex

fun in_cls :: "cls \<Rightarrow> char \<Rightarrow> bool" where
  "in_cls Digit c = isdigit c"
| "in_cls Space c = isspace c"

definition lit_eq :: "bool \<Rightarrow> string \<Rightarrow> string \<Rightarrow> bool" where
  \<comment> \<open>a literal against text of the same length; \<open>ignorecase\<close> is the flag \<open>re.I\<close>\<close>
  "lit_eq ignorecase l t = (if ignorecase then lower l = lower t else l = t)"

fun rmatch :: "bool \<Rightarrow> regex \<Rightarrow> string \<Rightarrow> (string list \<times> string) list" where
  "rmatch ic (Lit l) s =
     (if length l \<le> length s \<and> lit_eq ic l (take (length l) s)
      then [([], drop (length l) s)] else [])"
| "rmatch ic (Rep c lo hi) s =
     (let n = length (takeWhile (in_cls c) s);
          m = (case hi of None \<Rightarrow> n | Some h \<Rightarrow> min h n)
      in map (\<lambda>k. ([], drop k s)) (rev [lo..<Suc m]))"
| "rmatch ic (Seq r1 r2) s =
     concat (map (\<lambda>(g1, s1). map (\<lambda>(g2, s2). (g1 @ g2, s2)) (rmatch ic r2 s1))
                 (rmatch ic r1 s))"
| "rmatch ic (Alt r1 r2) s = rmatch ic r1 s @ rmatch ic r2 s"
| "rmatch ic (Opt r) s = rmatch ic r s @ [([], s)]"
| "rmatch ic (Group r) s =
     map (\<lambda>(g, s'). (take (length s - length s') s # g, s')) (rmatch ic r s)"

fun re_search :: "bool \<Rightarrow> regex \<Rightarrow> string \<Rightarrow> string list option" where
  \<comment> \<open>\<open>re.search(pattern, text, flags)\<close>: the preferred match at the leftmost position
      that has one; the result is \<open>match.groups()\<close>\<close>
  "re_search ic r [] = (case rmatch ic r [] of [] \<Rightarrow> None | m # _ \<Rightarrow> Some (fst m))"
| "re_search ic r (c # cs) =
     (case rmatch ic r (c # cs) of [] \<Rightarrow> re_search ic r cs | m # _ \<Rightarrow> Some (fst m))"

section \<open>Field extractors\<close>

definition size_units :: regex where
  \<comment> \<open>\<open>(Mo|MB|Go|GB|ko|KB|To|TB)\<close>\<close>
  "size_units =
     Group (Alt (Lit ''Mo'') (Alt (Lit ''MB'') (Alt (Lit ''Go'') (Alt (Lit ''GB'')
           (Alt (Lit ''ko'') (Alt (Lit ''KB'') (Alt (Lit ''To'') (Lit ''TB''))))))))"

definition size_pattern :: "char \<Rightarrow> regex" where
  \<comment> \<open>\<open>(\d+(?:\.\d+)?)\s*(Mo|MB|Go|GB|ko|KB|To|TB)\<close>, with the decimal separator
      as a parameter\<close>
  "size_pattern sep =
     Seq (Group (Seq (Rep Digit 1 None) (Opt (Seq (Lit [sep]) (Rep Digit 1 None)))))
         (Seq (Rep Space 0 None) size_units)"

definition size_patterns :: "regex list" where
  "size_patterns = [size_pattern CHR ''.'', size_pattern CHR '','']"

fun first_size :: "regex list \<Rightarrow> string \<Rightarrow> string option" where
  \<comment> \<open>the loop \<open>for pattern in size_patterns\<close>\<close>
  "first_size [] text = None"
| "first_size (pattern # patterns) text =
     (case re_search True pattern text of
        Some groups \<Rightarrow> Some (groups ! 0 @ '' '' @ groups ! 1)
      | None \<Rightarrow> first_size patterns text)"

definition extract_file_size :: "string \<Rightarrow> string option" where
  "extract_file_size text = (if text = [] then None else first_size size_patterns text)"

definition date_pattern :: "char \<Rightarrow> regex" where
  \<comment> \<open>\<open>(\d{1,2})/(\d{1,2})/(\d{4})\<close>, with the separator as a parameter\<close>
  "date_pattern sep =
     Seq (Group (Rep Digit 1 (Some 2)))
         (Seq (Lit [sep]) (Seq (Group (Rep Digit 1 (Some 2)))
              (Seq (Lit [sep]) (Group (Rep Digit 4 (Some 4))))))"

definition poste_le :: string where
  \<comment> \<open>the text \<open>Post\<acute>e le\<close> followed by a space\<close>
  "poste_le = ''Post'' @ [CHR 0xE9] @ '' le ''"

definition date_patterns :: "regex list" where
  "date_patterns =
     [date_pattern CHR ''/'', date_pattern CHR ''-'', Seq (Lit poste_le) (date_pattern CHR ''/'')]"

fun first_date :: "regex list \<Rightarrow> string \<Rightarrow> string option" where
  \<comment> \<open>the loop \<open>for pattern in date_patterns\<close>; both branches of the source's
      \<open>if\<close> build the same string\<close>
  "first_date [] text = None"
| "first_date (pattern # patterns) text =
     (case re_search False pattern text of
        Some groups \<Rightarrow> Some (groups ! 0 @ ''/'' @ groups ! 1 @ ''/'' @ groups ! 2)
      | None \<Rightarrow> first_date patterns text)"

definition extract_date_from_text :: "string \<Rightarrow> string option" where
  "extract_date_from_text text = (if text = [] then None else first_date date_patterns text)"

definition categories_list :: "string list" where
  "categories_list =
     [''Rapport d'' @ [CHR 0x27] @ ''activit'' @ [CHR 0xE9] @ ''s'', ''Autres rapports'',
      ''Publications'', ''Documents'']"

definition non_classe :: string where
  "non_classe = ''Non class'' @ [CHR 0xE9]"

definition extract_category_from_text :: "string \<Rightarrow> string" where
  "extract_category_from_text text =
     (case List.find (\<lambda>category. sublist category text) categories_list of
        Some category \<Rightarrow> category
      | None \<Rightarrow> non_classe)"

section \<open>Publications and the parsed page\<close>

text \<open>
  A publication is the dictionary the extractors build; its six keys are always present,
  \<open>file_size\<close> and \<open>date_posted\<close> hold \<open>None\<close> when nothing was found.
\<close>

record publication =
  title :: string
  download_url :: string
  file_size :: "string option"
  date_posted :: "string option"
  category :: string
  file_type :: string

text \<open>
  \<open>BeautifulSoup(html_content, 'lxml')\<close> is a library call; the model starts from the
  tree it returns. A node is a string or a tag with its name, its attributes and its
  children; the root is the \<open>BeautifulSoup\<close> object itself. A string has a class:
  ordinary text, a comment (or a declaration), or the class that \<open>bs4\<close> gives to the text
  inside \<open>script\<close>, \<open>style\<close>, \<open>template\<close>, \<open>rt\<close> and \<open>rp\<close>, named here by that
  tag. An element is a tag together with its ancestors, the nearest first, which is what
  \<open>find_parent\<close> and \<open>find_parents\<close> read.
\<close>

datatype string_class = PlainText | Comment | Inside string

datatype node =
    NavigableString string_class string
  | Tag string "(string \<times> string) list" "node list"

type_synonym element = "node \<times> node list"

fun tag_name :: "node \<Rightarrow> string" where
  "tag_name (Tag name attrs children) = name"
| "tag_name (NavigableString c s) = ''''"

fun tag_attrs :: "node \<Rightarrow> (string \<times> string) list" where
  "tag_attrs (Tag name attrs children) = attrs"
| "tag_attrs (NavigableString c s) = []"

definition interesting_class :: "node \<Rightarrow> string_class" where
  \<comment> \<open>\<open>tag.interesting_string_types\<close>: the tags that hold a class of their own read
      that class, every other tag reads ordinary text\<close>
  "interesting_class n =
     (if tag_name n \<in> set [''rt'', ''rp'', ''style'', ''script'', ''template'']
      then Inside (tag_name n) else PlainText)"

fun all_strings :: "string_class \<Rightarrow> node \<Rightarrow> string list" where
  \<comment> \<open>the strings of one class below a node, in document order\<close>
  "all_strings c (NavigableString c' s) = (if c' = c then [s] else [])"
| "all_strings c (Tag name attrs children) = concat (map (all_strings c) children)"

definition get_text :: "node \<Rightarrow> string" where
  \<comment> \<open>\<open>tag.get_text()\<close>: the strings of the tag's class below it, concatenated; comments
      and the text of scripts, styles and templates below an ordinary tag are left out\<close>
  "get_text n = concat (all_strings (interesting_class n) n)"

definition get_text_strip :: "node \<Rightarrow> string" where
  \<comment> \<open>\<open>tag.get_text(strip=True)\<close>: every string stripped, the empty ones dropped\<close>
  "get_text_strip n =
     concat (filter (\<lambda>t. t \<noteq> []) (map strip (all_strings (interesting_class n) n)))"

fun walk :: "node list \<Rightarrow> node \<Rightarrow> element list" where
  \<comment> \<open>a tag and the tags below it in document order, each with its ancestors\<close>
  "walk ancestors (NavigableString c s) = []"
| "walk ancestors (Tag name attrs children) =
     (Tag name attrs children, ancestors) #
     concat (map (walk (Tag name attrs children # ancestors)) children)"

definition descendants :: "element \<Rightarrow> element list" where
  "descendants el = tl (walk (snd el) (fst el))"

definition get_attr :: "node \<Rightarrow> string \<Rightarrow> string \<Rightarrow> string" where
  \<comment> \<open>\<open>tag.get(key, default)\<close>\<close>
  "get_attr n key dflt = (case map_of (tag_attrs n) key of Some v \<Rightarrow> v | None \<Rightarrow> dflt)"

definition attr_matches :: "regex \<Rightarrow> string \<Rightarrow> node \<Rightarrow> bool" where
  \<comment> \<open>the filter \<open>key=re.compile(pattern, re.I)\<close> of \<open>find_all\<close> and \<open>find\<close>: the tag
      has the attribute and the pattern is found in its value\<close>
  "attr_matches pattern key n =
     (case map_of (tag_attrs n) key of
        Some v \<Rightarrow> re_search True pattern v \<noteq> None
      | None \<Rightarrow> False)"

definition find_all :: "string list \<Rightarrow> (node \<Rightarrow> bool) \<Rightarrow> element \<Rightarrow> element list" where
  \<comment> \<open>\<open>el.find_all(names, ...)\<close>\<close>
  "find_all names filt el =
     filter (\<lambda>d. tag_name (fst d) \<in> set names \<and> filt (fst d)) (descendants el)"

definition find_first :: "string list \<Rightarrow> (node \<Rightarrow> bool) \<Rightarrow> element \<Rightarrow> element option" where
  \<comment> \<open>\<open>el.find(names, ...)\<close>\<close>
  "find_first names filt el = (case find_all names filt el of [] \<Rightarrow> None | d # ds \<Rightarrow> Some d)"

definition find_parent :: "element \<Rightarrow> element option" where
  "find_parent el = (case snd el of [] \<Rightarrow> None | p # ps \<Rightarrow> Some (p, ps))"

definition headings :: "string list" where
  "headings = [''h1'', ''h2'', ''h3'', ''h4'', ''h5'', ''h6'']"

definition class_pattern :: regex where
  \<comment> \<open>\<open>publication|rapport|document\<close>\<close>
  "class_pattern = Alt (Lit ''publication'') (Alt (Lit ''rapport'') (Lit ''document''))"

definition pdf_pattern :: regex where
  \<comment> \<open>\<open>\.pdf\<close>\<close>
  "pdf_pattern = Lit ''.pdf''"

definition doc_pattern :: regex where
  \<comment> \<open>\<open>\.(pdf|doc|docx)\<close>\<close>
  "doc_pattern = Seq (Lit ''.'') (Group (Alt (Lit ''pdf'') (Alt (Lit ''doc'') (Lit ''docx''))))"

section \<open>Deduplication\<close>

definition is_unique_publication ::
  "publication option \<Rightarrow> string set \<Rightarrow> string set \<Rightarrow> bool" where
  "is_unique_publication publication seen_urls seen_titles =
     (case publication of
        None \<Rightarrow> False
      | Some p \<Rightarrow>
          if download_url p = [] then False
          else if title p = [] then False
          else if download_url p \<in> seen_urls then False
          else if normalize_title (title p) \<in> seen_titles then False
          else True)"

record tracker =
  publications :: "publication list"
  seen_urls :: "string set"
  seen_titles :: "string set"

definition accept_candidate :: "publication option \<Rightarrow> tracker \<Rightarrow> tracker" where
  \<comment> \<open>the body of each loop of \<open>parse_publications\<close>: a candidate that is there and
      unique is appended and its URL and normalized title are recorded\<close>
  "accept_candidate candidate t =
     (case candidate of
        None \<Rightarrow> t
      | Some p \<Rightarrow>
          if is_unique_publication (Some p) (seen_urls t) (seen_titles t)
          then t\<lparr>publications := publications t @ [p],
                 seen_urls := insert (download_url p) (seen_urls t),
                 seen_titles := insert (normalize_title (title p)) (seen_titles t)\<rparr>
          else t)"

section \<open>Record extractors\<close>

text \<open>
  \<open>urllib.parse.urljoin\<close> is a library function and a parameter of the model; it gives
  \<open>None\<close> where the library raises, which both extractors catch.
\<close>

type_synonym urljoin = "string \<Rightarrow> string \<Rightarrow> string option"

definition base_url :: string where
  "base_url = ''https://angspe.ma''"

fun first_date_of :: "node list \<Rightarrow> string option" where
  "first_date_of [] = None"
| "first_date_of (n # ns) =
     (case extract_date_from_text (get_text n) of
        Some date \<Rightarrow> Some date
      | None \<Rightarrow> first_date_of ns)"

definition extract_date :: "element \<Rightarrow> string option" where
  \<comment> \<open>the element, then its first three ancestors\<close>
  "extract_date el = first_date_of (fst el # take 3 (snd el))"

definition category_markers :: "string list" where
  "category_markers =
     [''Rapport d'' @ [CHR 0x27] @ ''activit'' @ [CHR 0xE9] @ ''s'', ''Autres rapports'', ''Publications'']"

fun category_of_parents :: "node list \<Rightarrow> string" where
  "category_of_parents [] = non_classe"
| "category_of_parents (parent # parents) =
     (if list_ex (\<lambda>cat. sublist cat (get_text parent)) category_markers
      then extract_category_from_text (get_text parent)
      else category_of_parents parents)"

definition extract_category :: "element \<Rightarrow> string" where
  "extract_category el = category_of_parents (snd el)"

definition extract_publication_info :: "urljoin \<Rightarrow> element \<Rightarrow> publication option" where
  "extract_publication_info urljoin link =
     (let href = get_attr (fst link) ''href'' ''''
      in if href = [] then None
         else
           case urljoin base_url href of
             None \<Rightarrow> None
           | Some url \<Rightarrow>
               let text0 = get_text_strip (fst link);
                   title' =
                     (if text0 = [] \<or> length text0 < 5
                      then (case find_parent link of
                              None \<Rightarrow> text0
                            | Some parent \<Rightarrow>
                                (case find_first headings (\<lambda>n. True) parent of
                                   None \<Rightarrow> text0
                                 | Some heading \<Rightarrow> get_text_strip (fst heading)))
                      else text0);
                   size0 = extract_file_size (get_text (fst link));
                   size' =
                     (if size0 = None
                      then (case find_parent link of
                              None \<Rightarrow> size0
                            | Some parent \<Rightarrow> extract_file_size (get_text (fst parent)))
                      else size0)
               in Some \<lparr>title = title', download_url = url, file_size = size',
                         date_posted = extract_date link, category = extract_category link,
                         file_type = (if sublist ''.pdf'' (lower href) then ''PDF'' else ''Unknown'')\<rparr>)"

definition extract_publication_from_section :: "urljoin \<Rightarrow> element \<Rightarrow> publication option" where
  "extract_publication_from_section urljoin section =
     (let title' =
            (case find_first headings (\<lambda>n. True) section of
               Some title_elem \<Rightarrow> get_text_strip (fst title_elem)
             | None \<Rightarrow> '''');
          link =
            (case find_first [''a''] (attr_matches doc_pattern ''href'') section of
               None \<Rightarrow> Some ('''', ''Unknown'')
             | Some download_link \<Rightarrow>
                 (let href = get_attr (fst download_link) ''href'' ''''
                  in case urljoin base_url href of
                       None \<Rightarrow> None
                     | Some url \<Rightarrow>
                         Some (url, if sublist ''.pdf'' (lower href) then ''PDF''
                                    else if sublist ''.doc'' (lower href) then ''DOC''
                                    else ''Unknown'')))
      in case link of
           None \<Rightarrow> None
         | Some (url, ftype) \<Rightarrow>
             let section_text = get_text (fst section)
             in if title' \<noteq> [] \<and> url \<noteq> []
                then Some \<lparr>title = title', download_url = url,
                           file_size = extract_file_size section_text,
                           date_posted = extract_date_from_text section_text,
                           category = extract_category_from_text section_text,
                           file_type = ftype\<rparr>
                else None)"

definition known_publications :: "publication list" where
  "known_publications =
     [\<lparr>title = ''Rapport sur l'' @ [CHR 0x27, CHR 0xC9] @ ''tat actionnaire 2023 - 2024'',
       download_url = base_url @ ''/path/to/rapport-etat-actionnaire-2023-2024.pdf'',
       file_size = Some ''6.92 Mo'', date_posted = Some ''26/06/2025'',
       category = ''Rapport d'' @ [CHR 0x27] @ ''activit'' @ [CHR 0xE9] @ ''s'', file_type = ''PDF''\<rparr>,
      \<lparr>title = ''Charte de gouvernance pour les EEP.'',
       download_url = base_url @ ''/path/to/charte-gouvernance-eep.pdf'',
       file_size = Some ''1755 ko'', date_posted = Some ''22/05/2025'',
       category = ''Autres rapports'', file_type = ''PDF''\<rparr>]"

definition alternative_parsing :: "node \<Rightarrow> publication list" where
  "alternative_parsing soup =
     filter (\<lambda>pub. sublist (title pub) (get_text soup)) known_publications"

section \<open>The page parser\<close>

text \<open>
  \<open>parse_publications\<close> with the three loops named. Besides the publications the model
  returns which tiers it entered, in order: the search for sections is always made, the
  loop over links is the \<open>if\<close> branch, the loop over sections the \<open>else\<close> branch.
\<close>

datatype tier = StructuredSections | RawLinks | KnownRecords

definition empty_tracker :: tracker where
  "empty_tracker = \<lparr>publications = [], seen_urls = {}, seen_titles = {}\<rparr>"

definition publication_sections :: "node \<Rightarrow> element list" where
  "publication_sections soup =
     find_all [''div'', ''article'', ''section''] (attr_matches class_pattern ''class'') (soup, [])"

definition pdf_links :: "node \<Rightarrow> element list" where
  "pdf_links soup = find_all [''a''] (attr_matches pdf_pattern ''href'') (soup, [])"

definition structured_section_tier :: "urljoin \<Rightarrow> node \<Rightarrow> tracker" where
  "structured_section_tier urljoin soup =
     foldl (\<lambda>t section. accept_candidate (extract_publication_from_section urljoin section) t)
           empty_tracker (publication_sections soup)"

definition raw_link_tier :: "urljoin \<Rightarrow> node \<Rightarrow> tracker" where
  "raw_link_tier urljoin soup =
     foldl (\<lambda>t link. accept_candidate (extract_publication_info urljoin link) t)
           empty_tracker (pdf_links soup)"

definition known_record_tier :: "node \<Rightarrow> tracker \<Rightarrow> tracker" where
  "known_record_tier soup t0 =
     foldl (\<lambda>t publication. accept_candidate (Some publication) t) t0 (alternative_parsing soup)"

definition parse_publications_run :: "urljoin \<Rightarrow> node \<Rightarrow> tier list \<times> publication list" where
  "parse_publications_run urljoin soup =
     (let (tiers1, t1) =
            (if publication_sections soup = []
             then ([StructuredSections, RawLinks], raw_link_tier urljoin soup)
             else ([StructuredSections], structured_section_tier urljoin soup));
          (tiers2, t2) =
            (if publications t1 = []
             then (tiers1 @ [KnownRecords], known_record_tier soup t1)
             else (tiers1, t1))
      in (tiers2, publications t2))"

definition parse_publications :: "urljoin \<Rightarrow> node \<Rightarrow> publication list" where
  "parse_publications urljoin soup = snd (parse_publications_run urljoin soup)"

section \<open>Analyzer\<close>

datatype error = TypeError

fun counter_add :: "'a \<Rightarrow> ('a \<times> nat) list \<Rightarrow> ('a \<times> nat) list" where
  "counter_add k [] = [(k, 1)]"
| "counter_add k ((k', n) # m) =
     (if k = k' then (k', Suc n) # m else (k', n) # counter_add k m)"

definition counter :: "'a list \<Rightarrow> ('a \<times> nat) list" where
  \<comment> \<open>\<open>dict(Counter(xs))\<close>: the keys in the order of their first occurrence\<close>
  "counter xs = foldl (\<lambda>m k. counter_add k m) [] xs"

definition digit_val :: "char \<Rightarrow> nat" where
  "digit_val c = of_char c - 48"

fun int_digits :: "nat \<Rightarrow> string \<Rightarrow> nat option" where
  \<comment> \<open>after a digit: the end, another digit, or one underscore and a digit\<close>
  "int_digits acc [] = Some acc"
| "int_digits acc [c] = (if isdigit c then Some (10 * acc + digit_val c) else None)"
| "int_digits acc (c # d # ds) =
     (if isdigit c then int_digits (10 * acc + digit_val c) (d # ds)
      else if c = CHR ''_'' \<and> isdigit d then int_digits (10 * acc + digit_val d) ds
      else None)"

definition int_unsigned :: "string \<Rightarrow> nat option" where
  "int_unsigned s =
     (case s of [] \<Rightarrow> None | c # cs \<Rightarrow> if isdigit c then int_digits (digit_val c) cs else None)"

definition python_int :: "string \<Rightarrow> int option" where
  \<comment> \<open>\<open>int(s)\<close>: blanks around, an optional sign, decimal digits with single
      underscores between them; \<open>None\<close> where Python raises \<open>ValueError\<close>\<close>
  "python_int s =
     (case strip s of
        [] \<Rightarrow> None
      | c # cs \<Rightarrow>
          if c = CHR ''-'' then map_option (\<lambda>n. - int n) (int_unsigned cs)
          else if c = CHR ''+'' then map_option int (int_unsigned cs)
          else map_option int (int_unsigned (c # cs)))"

definition last_field :: "string \<Rightarrow> string" where
  \<comment> \<open>\<open>s.split('/')[-1]\<close>: what follows the last slash\<close>
  "last_field s = rev (takeWhile (\<lambda>c. c \<noteq> CHR ''/'') (rev s))"

fun collect_years :: "publication list \<Rightarrow> int list" where
  \<comment> \<open>the loop that fills \<open>years\<close>; an unparsable year is skipped by the \<open>except\<close>\<close>
  "collect_years [] = []"
| "collect_years (pub # pubs) =
     (case date_posted pub of
        None \<Rightarrow> collect_years pubs
      | Some date_str \<Rightarrow>
          if date_str \<noteq> [] \<and> CHR ''/'' \<in> set date_str
          then (case python_int (last_field date_str) of
                  Some year \<Rightarrow> year # collect_years pubs
                | None \<Rightarrow> collect_years pubs)
          else collect_years pubs)"

fun str_nat :: "nat \<Rightarrow> string" where
  "str_nat n =
     (if n < 10 then [char_of (48 + n)] else str_nat (n div 10) @ [char_of (48 + n mod 10)])"

definition str_int :: "int \<Rightarrow> string" where
  \<comment> \<open>\<open>str(i)\<close>\<close>
  "str_int i = (if i < 0 then ''-'' @ str_nat (nat (- i)) else str_nat (nat i))"

fun find_latest :: "string \<Rightarrow> publication list \<Rightarrow> error + publication option" where
  \<comment> \<open>the loop that picks \<open>latest_publication\<close>; \<open>pub.get('date_posted', '')\<close> is
      \<open>None\<close> when the key holds \<open>None\<close>, and \<open>str in None\<close> raises \<open>TypeError\<close>\<close>
  "find_latest year_str [] = Inr None"
| "find_latest year_str (pub # pubs) =
     (case date_posted pub of
        None \<Rightarrow> Inl TypeError
      | Some date_str \<Rightarrow>
          if sublist year_str date_str then Inr (Some pub) else find_latest year_str pubs)"

definition number_pattern :: regex where
  \<comment> \<open>\<open>(\d+(?:\.\d+)?)\<close>\<close>
  "number_pattern = Group (Seq (Rep Digit 1 None) (Opt (Seq (Lit ''.'') (Rep Digit 1 None))))"

text \<open>
  Floating point is Python's, not the repository's: what \<open>float(s)\<close>, \<open>x / n\<close>,
  \<open>sum(xs)\<close> and \<open>f"{x:.2f}"\<close> compute is a parameter of the model, over any type of
  floating-point values.
\<close>

record 'f float_ops =
  float_of :: "string \<Rightarrow> 'f"
  divide_by :: "'f \<Rightarrow> nat \<Rightarrow> 'f"
  sum_of :: "'f list \<Rightarrow> 'f"
  format_2f :: "'f \<Rightarrow> string"

definition size_megabytes :: "'f float_ops \<Rightarrow> string \<Rightarrow> 'f option" where
  \<comment> \<open>the body of the \<open>try\<close> in the loop over sizes: what is appended to \<open>sizes\<close>, if
      anything; \<open>re.search(...)\<close> returning \<open>None\<close> raises and the \<open>except\<close> skips\<close>
  "size_megabytes fl size_str =
     (if sublist ''Mo'' size_str \<or> sublist ''MB'' size_str
      then (case re_search False number_pattern size_str of
              Some groups \<Rightarrow> Some (float_of fl (groups ! 0))
            | None \<Rightarrow> None)
      else if sublist ''ko'' size_str \<or> sublist ''KB'' size_str
      then (case re_search False number_pattern size_str of
              Some groups \<Rightarrow> Some (divide_by fl (float_of fl (groups ! 0)) 1024)
            | None \<Rightarrow> None)
      else None)"

fun collect_sizes :: "'f float_ops \<Rightarrow> publication list \<Rightarrow> 'f list" where
  "collect_sizes fl [] = []"
| "collect_sizes fl (pub # pubs) =
     (case file_size pub of
        None \<Rightarrow> collect_sizes fl pubs
      | Some size_str \<Rightarrow>
          if size_str = [] then collect_sizes fl pubs
          else (case size_megabytes fl size_str of
                  Some mb \<Rightarrow> mb # collect_sizes fl pubs
                | None \<Rightarrow> collect_sizes fl pubs))"

definition average_size :: "'f float_ops \<Rightarrow> publication list \<Rightarrow> string option" where
  \<comment> \<open>\<open>f"{sum(sizes)/len(sizes):.2f} MB"\<close> when \<open>sizes\<close> is not empty\<close>
  "average_size fl pubs =
     (let sizes = collect_sizes fl pubs
      in if sizes = [] then None
         else Some (format_2f fl (divide_by fl (sum_of fl sizes) (length sizes)) @ '' MB''))"

record analysis =
  total_publications :: nat
  categories :: "(string \<times> nat) list"
  file_types :: "(string \<times> nat) list"
  publications_by_year :: "(int \<times> nat) list"
  average_file_size :: "string option"
  latest_publication :: "publication option"
  publications_list :: "publication list"

datatype report = NoPublications | Analysis analysis

definition analyze_publications :: "'f float_ops \<Rightarrow> publication list \<Rightarrow> error + report" where
  \<comment> \<open>\<open>NoPublications\<close> is the dictionary \<open>{"error": "No publications found"}\<close>;
      \<open>Inl\<close> is an exception that leaves the function\<close>
  "analyze_publications fl pubs =
     (if pubs = [] then Inr NoPublications
      else
        let years = collect_years pubs
        in case (if years = [] then Inr None
                 else find_latest (str_int (Max (set years))) pubs) of
             Inl e \<Rightarrow> Inl e
           | Inr latest \<Rightarrow>
               Inr (Analysis
                 \<lparr>total_publications = length pubs,
                  categories = counter (map category pubs),
                  file_types = counter (map file_type pubs),
                  publications_by_year = (if years = [] then [] else counter years),
                  average_file_size = average_size fl pubs,
                  latest_publication = latest,
                  publications_list = pubs\<rparr>))"

section \<open>The pipeline\<close>

text \<open>
  What \<open>run_full_scrape\<close> reads from the outside is a parameter (\<open>env\<close>): the outcome of
  the HTTP request, the HTML parser, \<open>urljoin\<close>, floating point, the clock and the
  return code of the viewer generator. What it changes is a state (\<open>world\<close>): the files it reads and writes
  itself, the commands it starts, and the lines of its own run summary on the console.
  The clock is read once for the whole run. The diagnostics that the parser prints and
  what a started command does to the files are not modelled; neither are directories or
  failing writes.
\<close>

datatype http_result = ConnectionFailed | TimedOut | Response nat string

record clock =
  current_year :: nat
  isoformat :: string

record 'f env =
  http :: http_result
  html_parser :: "string \<Rightarrow> node"
  urljoin_of :: urljoin
  floats :: "'f float_ops"
  clock :: clock
  generator_returncode :: "int option"

record snapshot =
  snap_publications :: "publication list"
  snap_analysis :: report
  scraped_at :: string
  source_url :: string
  total_unique_publications :: nat

datatype content =
    PublicationsJson snapshot
  | AnalysisJson report
  | PublicationsCsv "publication list"
  | Other string

datatype message =
    Starting
  | FoundExisting nat
  | ErrorFetchingPage
  | FailedToFetch
  | Fetched nat
  | Parsing
  | UpToDate nat
  | FoundUnique nat
  | NewDetected nat
  | MayHaveBeenRemoved nat
  | Analyzing
  | SavedTo string
  | StandaloneViewer bool
  | DynamicViewer "string option"
  | Completed

record world =
  fs :: "string \<rightharpoonup> content"
  spawned :: "string list list"
  console :: "message list"

definition print :: "message list \<Rightarrow> world \<Rightarrow> world" where
  "print ms w = w\<lparr>console := console w @ ms\<rparr>"

definition target_url :: string where
  "target_url = ''https://angspe.ma/les-publications''"

definition publications_file :: "nat \<Rightarrow> string" where
  "publications_file y = ''data/angspe_publications_'' @ str_nat y @ ''.json''"

definition analysis_file :: "nat \<Rightarrow> string" where
  "analysis_file y = ''data/angspe_analysis_'' @ str_nat y @ ''.json''"

definition csv_file :: "nat \<Rightarrow> string" where
  "csv_file y = ''data/angspe_publications_'' @ str_nat y @ ''.csv''"

definition viewer_file :: "nat \<Rightarrow> string" where
  "viewer_file y = ''angspe_viewer_'' @ str_nat y @ ''.html''"

definition fetch_page_html :: "'f env \<Rightarrow> world \<Rightarrow> string option \<times> world" where
  \<comment> \<open>\<open>raise_for_status\<close> raises for the status codes 400 to 599; every
      \<open>RequestException\<close> is caught and gives \<open>None\<close>\<close>
  "fetch_page_html e w =
     (case http e of
        ConnectionFailed \<Rightarrow> (None, print [ErrorFetchingPage] w)
      | TimedOut \<Rightarrow> (None, print [ErrorFetchingPage] w)
      | Response status body \<Rightarrow>
          if 400 \<le> status \<and> status < 600 then (None, print [ErrorFetchingPage] w)
          else (Some body, w))"

definition get_existing_publications_count :: "'f env \<Rightarrow> world \<Rightarrow> nat" where
  \<comment> \<open>the number of publications in this year's file; 0 when the file is missing or
      cannot be read as a snapshot\<close>
  "get_existing_publications_count e w =
     (case fs w (publications_file (current_year (clock e))) of
        Some (PublicationsJson s) \<Rightarrow> length (snap_publications s)
      | _ \<Rightarrow> 0)"

definition save_results :: "'f env \<Rightarrow> publication list \<Rightarrow> report \<Rightarrow> string \<Rightarrow> world \<Rightarrow> world" where
  "save_results e pubs analysis format w =
     (let y = current_year (clock e)
      in if format = ''json''
         then print [SavedTo (publications_file y), SavedTo (analysis_file y)]
                (w\<lparr>fs := (fs w)
                   (publications_file y \<mapsto>
                      PublicationsJson
                        \<lparr>snap_publications = pubs, snap_analysis = analysis,
                         scraped_at = isoformat (clock e), source_url = target_url,
                         total_unique_publications = length pubs\<rparr>,
                    analysis_file y \<mapsto> AnalysisJson analysis)\<rparr>)
         else if format = ''csv''
         then (if pubs \<noteq> []
               then print [SavedTo (csv_file y)]
                      (w\<lparr>fs := (fs w)(csv_file y \<mapsto> PublicationsCsv pubs)\<rparr>)
               else w)
         else w)"

definition generate_standalone_viewer :: "'f env \<Rightarrow> world \<Rightarrow> world" where
  "generate_standalone_viewer e w =
     print [StandaloneViewer (generator_returncode e = Some 0)]
       (w\<lparr>spawned := spawned w @ [[''python3'', ''generate_standalone.py'']]\<rparr>)"

definition generate_dynamic_viewer :: "'f env \<Rightarrow> world \<Rightarrow> world" where
  "generate_dynamic_viewer e w =
     (case fs w ''angspe_dynamic_viewer.html'' of
        Some template \<Rightarrow>
          print [DynamicViewer (Some (viewer_file (current_year (clock e))))]
            (w\<lparr>fs := (fs w)(viewer_file (current_year (clock e)) \<mapsto> template)\<rparr>)
      | None \<Rightarrow> print [DynamicViewer None] w)"

definition summary :: "nat \<Rightarrow> nat \<Rightarrow> message list" where
  \<comment> \<open>the lines that compare the count with the existing one; they decide nothing\<close>
  "summary found existing_count =
     (if found = existing_count then [UpToDate found]
      else [FoundUnique found] @
           (if 0 < existing_count
            then (if existing_count < found then [NewDetected (found - existing_count)]
                  else if found < existing_count
                  then [MayHaveBeenRemoved (existing_count - found)]
                  else [])
            else []))"

definition run_full_scrape ::
  "'f env \<Rightarrow> world \<Rightarrow> (error + (publication list \<times> report) option) \<times> world" where
  \<comment> \<open>\<open>Inr None\<close> is the return value \<open>(None, None)\<close>, \<open>Inl\<close> an exception that
      leaves the function\<close>
  "run_full_scrape e w =
     (let w1 = print [Starting] w;
          existing_count = get_existing_publications_count e w1;
          w2 = (if 0 < existing_count then print [FoundExisting existing_count] w1 else w1);
          (html_content, w3) = fetch_page_html e w2
      in case html_content of
           None \<Rightarrow> (Inr None, print [FailedToFetch] w3)
         | Some html \<Rightarrow>
             if html = [] then (Inr None, print [FailedToFetch] w3)
             else
               let w4 = print [Fetched (length html), Parsing] w3;
                   pubs = parse_publications (urljoin_of e) (html_parser e html);
                   w5 = print (summary (length pubs) existing_count @ [Analyzing]) w4
               in case analyze_publications (floats e) pubs of
                    Inl err \<Rightarrow> (Inl err, w5)
                  | Inr analysis \<Rightarrow>
                      let w6 = save_results e pubs analysis ''json'' w5;
                          w7 = save_results e pubs analysis ''csv'' w6;
                          w8 = generate_standalone_viewer e w7;
                          w9 = generate_dynamic_viewer e w8
                      in (Inr (Some (pubs, analysis)), print [Completed] w9))"

section \<open>Predicates of the statements\<close>

text \<open>A day, a month and a year as the date patterns capture them: one or two digits, one or
  two digits, four digits.\<close>

definition day_month_year :: "string \<Rightarrow> string \<Rightarrow> string \<Rightarrow> bool" where
  "day_month_year d m y =
     (list_all isdigit (d @ m @ y) \<and> length d \<in> {1, 2} \<and> length m \<in> {1, 2} \<and> length y = 4)"

text \<open>What the first two tiers of \<open>parse_publications\<close> yield together: the records of
  the loop over sections, and those of the loop over links when that loop is entered.\<close>

definition first_two_tiers :: "urljoin \<Rightarrow> node \<Rightarrow> publication list" where
  "first_two_tiers urljoin soup =
     publications (structured_section_tier urljoin soup) @
     (if RawLinks \<in> set (fst (parse_publications_run urljoin soup))
      then publications (raw_link_tier urljoin soup) else [])"

text \<open>What one publication adds to the sizes that are averaged: nothing when its size is
  unset or holds no number; otherwise the first number of the size, as a float, when the
  size contains \<open>Mo\<close> or \<open>MB\<close> in exactly this spelling, that float divided by 1024
  when it contains \<open>ko\<close> or \<open>KB\<close> in exactly this spelling, and nothing for every other
  size.\<close>

definition megabytes_counted :: "'f float_ops \<Rightarrow> publication \<Rightarrow> 'f option" where
  "megabytes_counted fl p =
     (case file_size p of
        None \<Rightarrow> None
      | Some s \<Rightarrow>
          (case re_search False number_pattern s of
             None \<Rightarrow> None
           | Some groups \<Rightarrow>
               if sublist ''Mo'' s \<or> sublist ''MB'' s then Some (float_of fl (groups ! 0))
               else if sublist ''ko'' s \<or> sublist ''KB'' s
               then Some (divide_by fl (float_of fl (groups ! 0)) 1024)
               else None))"

text \<open>The snapshot of a run that found nothing.\<close>

definition empty_snapshot :: "'f env \<Rightarrow> snapshot" where
  "empty_snapshot e =
     \<lparr>snap_publications = [], snap_analysis = NoPublications,
      scraped_at = isoformat (clock e), source_url = target_url,
      total_unique_publications = 0\<rparr>"

section \<open>Example inputs\<close>

text \<open>A stand-in for \<open>urljoin\<close> that appends the reference to the base, and two pages:
  one without publication sections and with repeated links and titles, one whose only
  publication section has neither heading nor link.\<close>

definition example_urljoin :: urljoin where
  "example_urljoin base href = Some (base @ href)"

definition example_page :: node where
  "example_page = Tag ''[document]'' []
     [Tag ''a'' [(''href'', ''/a.pdf'')] [NavigableString PlainText ''Bilan''],
      Tag ''a'' [(''href'', ''/a.pdf'')] [NavigableString PlainText ''Autre''],
      Tag ''a'' [(''href'', ''/b.PDF'')] [NavigableString PlainText '' BILAN! ''],
      Tag ''a'' [(''href'', ''/c.pdf'')] [NavigableString PlainText ''Charte'']]"

definition example_empty_section :: node where
  "example_empty_section = Tag ''[document]'' [] [
      Tag ''div'' [(''class'', ''Publication'')] [NavigableString PlainText ''Vide''],
      Tag ''a'' [(''href'', ''/a.pdf'')] [NavigableString PlainText ''Bilan'']]"

text \<open>A publication with a given title, size and date.\<close>

definition example_publication ::
  "string \<Rightarrow> string option \<Rightarrow> string option \<Rightarrow> publication" where
  "example_publication t sz date =
     \<lparr>title = t, download_url = ''https://angspe.ma/'' @ t @ ''.pdf'', file_size = sz,
      date_posted = date, category = ''Publications'', file_type = ''PDF''\<rparr>"

text \<open>A floating-point arithmetic that computes exactly, on rationals: a decimal numeral has
  its value, division and sum are exact, and a value that is not negative is shown with two
  decimals, rounded half to even. Binary floating point gives the same results wherever the
  numerals, the quotients and the sums are representable, as they are in the examples
  (10, 512, 0.5, 10.5, 5.25).\<close>

definition digits_val :: "string \<Rightarrow> nat" where
  "digits_val s = foldl (\<lambda>a c. 10 * a + digit_val c) 0 s"

definition decimal_value :: "string \<Rightarrow> rat" where
  "decimal_value s =
     (let whole = takeWhile isdigit s;
          frac = drop (Suc (length whole)) s
      in of_nat (digits_val whole) + of_nat (digits_val frac) / 10 ^ length frac)"

definition round_half_even :: "rat \<Rightarrow> int" where
  "round_half_even x =
     (let f = \<lfloor>x\<rfloor>; r = x - of_int f
      in if r < 1 / 2 then f else if 1 / 2 < r then f + 1 else if even f then f else f + 1)"

definition two_decimals :: "rat \<Rightarrow> string" where
  "two_decimals x =
     (let n = nat (round_half_even (x * 100))
      in str_nat (n div 100) @ ''.'' @ str_nat (n mod 100 div 10) @ str_nat (n mod 10))"

definition exact_floats :: "rat float_ops" where
  "exact_floats =
     \<lparr>float_of = decimal_value, divide_by = (\<lambda>x n. x / of_nat n), sum_of = sum_list,
      format_2f = two_decimals\<rparr>"

text \<open>An environment around a given outcome of the request, whose parser puts the whole
  text into one string, and a state that holds a snapshot of two publications.\<close>

definition example_env :: "http_result \<Rightarrow> rat env" where
  "example_env r =
     \<lparr>http = r, html_parser = (\<lambda>html. Tag ''[document]'' [] [NavigableString PlainText html]),
      urljoin_of = example_urljoin, floats = exact_floats,
      clock = \<lparr>current_year = 2025, isoformat = ''2025-07-01T08:00:00''\<rparr>,
      generator_returncode = Some 0\<rparr>"

definition example_world :: world where
  "example_world =
     \<lparr>fs = [publications_file 2025 \<mapsto>
               PublicationsJson
                 \<lparr>snap_publications = known_publications, snap_analysis = NoPublications,
                  scraped_at = ''2025-06-30T08:00:00'', source_url = target_url,
                  total_unique_publications = 2\<rparr>],
      spawned = [], console = []\<rparr>"

section \<open>Predicates used in the proofs\<close>

definition spacefree :: "string \<Rightarrow> bool" where
  "spacefree w = (\<forall>c\<in>set w. \<not> isspace c)"

definition words_ok :: "string list \<Rightarrow> bool" where
  "words_ok ws = (\<forall>w\<in>set ws. w \<noteq> [] \<and> spacefree w)"

fun dblfree :: "string \<Rightarrow> bool" where
  "dblfree (a # b # r) = (\<not> (a = CHR '' '' \<and> b = CHR '' '') \<and> dblfree (b # r))"
| "dblfree [a] = True"
| "dblfree [] = True"

definition collapsed :: "string \<Rightarrow> string" where
  "collapsed x =
     join '' '' (split_ws (translate_delete (replace ''.'' '''' (replace ''-'' '''' punctuation))
                                           (strip (lower x))))"

definition deleted_punct :: string where
  "deleted_punct = replace ''.'' '''' (replace ''-'' '''' punctuation)"

definition tracker_inv :: "tracker \<Rightarrow> bool" where
  "tracker_inv t =
     (distinct (map download_url (publications t)) \<and>
      distinct (map (\<lambda>p. normalize_title (title p)) (publications t)) \<and>
      seen_urls t = set (map download_url (publications t)) \<and>
      seen_titles t = set (map (\<lambda>p. normalize_title (title p)) (publications t)) \<and>
      list_all (\<lambda>p. title p \<noteq> [] \<and> download_url p \<noteq> []) (publications t))"

section \<open>Strings and the title normalizer\<close>

lemma lower_char_idem: "lower_char (lower_char c) = lower_char c"
  unfolding lower_char_def Let_def by auto

lemma split_acc_words: "spacefree cur \<Longrightarrow> words_ok (split_acc cur s)"
proof (induction s arbitrary: cur)
  case Nil
  then show ?case by (simp add: words_ok_def)
next
  case (Cons a s)
  have e: "spacefree []" by (simp add: spacefree_def)
  show ?case
  proof (cases "isspace a")
    case True
    then show ?thesis using Cons.IH[OF e] Cons.prems by (simp add: words_ok_def)
  next
    case False
    then have "spacefree (cur @ [a])" using Cons.prems by (simp add: spacefree_def)
    then show ?thesis using Cons.IH[of "cur @ [a]"] False by simp
  qed
qed

lemma split_acc_chars: "\<Union>(set ` set (split_acc cur s)) \<subseteq> set cur \<union> set s"
proof (induction s arbitrary: cur)
  case Nil
  then show ?case by simp
next
  case (Cons a s)
  show ?case
  proof (cases "isspace a")
    case True
    then show ?thesis using Cons.IH[of "[]"] by auto
  next
    case False
    then show ?thesis using Cons.IH[of "cur @ [a]"] by auto
  qed
qed

lemma split_acc_append: "spacefree w \<Longrightarrow> split_acc cur (w @ s) = split_acc (cur @ w) s"
  by (induction w arbitrary: cur) (auto simp: spacefree_def)

lemma space_isspace: "isspace CHR '' ''"
  by (simp add: isspace_def)

lemma split_acc_join:
  "words_ok ws \<Longrightarrow> spacefree cur \<Longrightarrow>
   split_acc cur (join '' '' ws) =
     (case ws of [] \<Rightarrow> (if cur = [] then [] else [cur]) | w # rest \<Rightarrow> (cur @ w) # rest)"
proof (induction "'' ''" ws arbitrary: cur rule: join.induct)
  case 1
  then show ?case by simp
next
  case (2 w)
  then show ?case by (simp add: words_ok_def split_acc_append[of w cur "[]", simplified])
next
  case (3 w v vs)
  have w: "spacefree w" "w \<noteq> []" and rest: "words_ok (v # vs)"
    using "3.prems"(1) by (auto simp: words_ok_def)
  have "split_acc cur (join '' '' (w # v # vs)) = split_acc (cur @ w) ('' '' @ join '' '' (v # vs))"
    using split_acc_append[OF w(1)] by simp
  also have "\<dots> = (cur @ w) # split_acc [] (join '' '' (v # vs))"
    using w(2) by (simp add: space_isspace)
  also have "split_acc [] (join '' '' (v # vs)) = v # vs"
    using "3.hyps"[OF rest, of "[]"] by (simp add: spacefree_def)
  finally show ?case by simp
qed

lemma split_ws_join: "words_ok ws \<Longrightarrow> split_ws (join '' '' ws) = ws"
  using split_acc_join[of ws "[]"] by (cases ws) (auto simp: split_ws_def spacefree_def)

lemma join_chars: "set (join sep ws) \<subseteq> set sep \<union> \<Union>(set ` set ws)"
  by (induction sep ws rule: join.induct) auto

lemma strip_id: "s = [] \<or> (\<not> isspace (hd s) \<and> \<not> isspace (last s)) \<Longrightarrow> strip s = s"
proof (cases s)
  case Nil
  then show ?thesis by (simp add: strip_def)
next
  case (Cons a t)
  assume "s = [] \<or> (\<not> isspace (hd s) \<and> \<not> isspace (last s))"
  with Cons have h: "\<not> isspace (hd s)" and l: "\<not> isspace (last s)" by auto
  have 1: "dropWhile isspace s = s" using h Cons by simp
  have "rev s \<noteq> []" using Cons by simp
  then have 2: "dropWhile isspace (rev s) = rev s"
    using l Cons by (metis dropWhile_eq_self_iff hd_rev)
  show ?thesis by (simp add: strip_def 1 2)
qed

lemma join_nonempty: "words_ok ws \<Longrightarrow> ws \<noteq> [] \<Longrightarrow> join sep ws \<noteq> []"
  by (induction sep ws rule: join.induct) (auto simp: words_ok_def)

lemma join_hd: "words_ok ws \<Longrightarrow> ws \<noteq> [] \<Longrightarrow> hd (join sep ws) = hd (hd ws)"
  by (induction sep ws rule: join.induct) (auto simp: words_ok_def)

lemma join_last: "words_ok ws \<Longrightarrow> ws \<noteq> [] \<Longrightarrow> last (join sep ws) = last (last ws)"
  by (induction sep ws rule: join.induct) (auto simp: words_ok_def join_nonempty)

lemma strip_join: "words_ok ws \<Longrightarrow> strip (join sep ws) = join sep ws"
proof (cases ws)
  case Nil
  then show ?thesis by (simp add: strip_def)
next
  case (Cons w rest)
  assume ok: "words_ok ws"
  have ne: "ws \<noteq> []" using Cons by simp
  have "hd ws \<in> set ws" "last ws \<in> set ws" using ne by auto
  then have "hd ws \<noteq> []" "spacefree (hd ws)" "last ws \<noteq> []" "spacefree (last ws)"
    using ok by (auto simp: words_ok_def)
  then have "\<not> isspace (hd (hd ws))" "\<not> isspace (last (last ws))"
    by (auto simp: spacefree_def)
  then show ?thesis
    using strip_id[of "join sep ws"] join_hd[OF ok ne, of sep] join_last[OF ok ne, of sep] by simp
qed

lemma replace_absent: "\<not> sublist old s \<Longrightarrow> replace old new s = s"
  by (induction old new s rule: replace.induct) (auto simp: sublist_Cons_right)

lemma dblfree_replace_id: "dblfree s \<Longrightarrow> replace ''  '' '' '' s = s"
  by (induction s rule: dblfree.induct) auto

lemma dblfree_Cons:
  "dblfree (a # t) \<longleftrightarrow> t = [] \<or> (\<not> (a = CHR '' '' \<and> hd t = CHR '' '') \<and> dblfree t)"
  by (cases t) auto

lemma dblfree_append:
  "dblfree u \<Longrightarrow> dblfree v \<Longrightarrow> u = [] \<or> last u \<noteq> CHR '' '' \<Longrightarrow> dblfree (u @ v)"
proof (induction u rule: dblfree.induct)
  case (1 a b r)
  then show ?case by simp
next
  case (2 a)
  then show ?case by (cases v) auto
next
  case 3
  then show ?case by simp
qed

lemma dblfree_tl: "dblfree (a # t) \<Longrightarrow> dblfree t"
  by (cases t) auto

lemma dblfree_drop: "dblfree s \<Longrightarrow> dblfree (drop n s)"
proof (induction n arbitrary: s)
  case 0
  then show ?case by simp
next
  case (Suc n)
  then show ?case by (cases s) (auto dest: dblfree_tl)
qed

lemma spacefree_dblfree: "spacefree w \<Longrightarrow> dblfree w"
  by (induction w rule: dblfree.induct) (auto simp: spacefree_def space_isspace)

lemma dblfree_join: "words_ok ws \<Longrightarrow> dblfree (join '' '' ws)"
proof (induction "'' ''" ws rule: join.induct)
  case 1
  then show ?case by simp
next
  case (2 w)
  then show ?case by (simp add: words_ok_def spacefree_dblfree)
next
  case (3 w v vs)
  have w: "spacefree w" "w \<noteq> []" and rest: "words_ok (v # vs)"
    using "3.prems" by (auto simp: words_ok_def)
  have v: "v \<noteq> []" "spacefree v" using rest by (auto simp: words_ok_def)
  have "hd (join '' '' (v # vs)) = hd v" using join_hd[OF rest] by simp
  moreover have "hd v \<noteq> CHR '' ''" using v by (cases v) (auto simp: spacefree_def space_isspace)
  ultimately have "dblfree (CHR '' '' # join '' '' (v # vs))"
    using "3.hyps"[OF rest] by (simp add: dblfree_Cons)
  moreover have "last w \<noteq> CHR '' ''"
    using w by (metis last_in_set space_isspace spacefree_def)
  ultimately show ?case using dblfree_append[OF spacefree_dblfree[OF w(1)]] by simp
qed

lemma replace_present:
  "old \<noteq> [] \<Longrightarrow> sublist old s \<Longrightarrow> sublist new (replace old new s)"
proof (induction old new s rule: replace.induct)
  case (1 old new)
  then show ?case by simp
next
  case (2 old new c cs)
  show ?case
  proof (cases "prefix old (c # cs)")
    case True
    then show ?thesis using "2.prems" by simp
  next
    case False
    then have "sublist old cs" using "2.prems" by (simp add: sublist_Cons_right)
    then have "sublist new (replace old new cs)" using "2.IH"(2) "2.prems" False by simp
    then show ?thesis using False by (simp add: sublist_Cons_right)
  qed
qed

lemma replace_Nil_iff: "new \<noteq> [] \<Longrightarrow> replace old new s = [] \<longleftrightarrow> s = []"
  by (cases s) auto

lemma replace_hd:
  "old \<noteq> [] \<Longrightarrow> new \<noteq> [] \<Longrightarrow> hd new = hd old \<Longrightarrow> s \<noteq> [] \<Longrightarrow> hd (replace old new s) = hd s"
  by (cases s; cases old) (auto simp: prefix_def)

lemma dblfree_replace:
  "old \<noteq> [] \<Longrightarrow> new \<noteq> [] \<Longrightarrow> hd new = hd old \<Longrightarrow> dblfree new \<Longrightarrow> last new \<noteq> CHR '' '' \<Longrightarrow>
   dblfree s \<Longrightarrow> dblfree (replace old new s)"
proof (induction old new s rule: replace.induct)
  case (1 old new)
  then show ?case by simp
next
  case (2 old new c cs)
  show ?case
  proof (cases "old \<noteq> [] \<and> prefix old (c # cs)")
    case True
    have "dblfree (drop (length old) (c # cs))" using "2.prems"(6) by (rule dblfree_drop)
    then have "dblfree (replace old new (drop (length old) (c # cs)))"
      using "2.IH"(1) True "2.prems" by blast
    then show ?thesis
      using True "2.prems" dblfree_append[of new "replace old new (drop (length old) (c # cs))"]
      by simp
  next
    case False
    have t: "dblfree cs" using "2.prems"(6) by (rule dblfree_tl)
    then have r: "dblfree (replace old new cs)" using "2.IH"(2) False "2.prems" by blast
    have eq: "replace old new (c # cs) = c # replace old new cs" using False by auto
    show ?thesis
    proof (cases "cs = []")
      case True
      then show ?thesis unfolding eq by simp
    next
      case ne: False
      have h: "hd (replace old new cs) = hd cs" "replace old new cs \<noteq> []"
        using replace_hd[of old new cs] replace_Nil_iff[of new old cs] "2.prems" ne by auto
      have "\<not> (c = CHR '' '' \<and> hd cs = CHR '' '')"
        using "2.prems"(6) ne by (simp add: dblfree_Cons)
      then show ?thesis unfolding eq using h r by (simp add: dblfree_Cons)
    qed
  qed
qed

lemma set_strip: "set (strip s) \<subseteq> set s"
  by (auto simp: strip_def dest!: set_dropWhileD)

lemma collapsed_words:
  "\<exists>ws. words_ok ws \<and> collapsed x = join '' '' ws \<and>
        \<Union>(set ` set ws) \<subseteq> lower_char ` set x - set deleted_punct"
proof -
  let ?t = "translate_delete deleted_punct (strip (lower x))"
  let ?ws = "split_ws ?t"
  have "words_ok ?ws" unfolding split_ws_def by (rule split_acc_words) (simp add: spacefree_def)
  moreover have "collapsed x = join '' '' ?ws" by (simp add: collapsed_def deleted_punct_def)
  moreover have "\<Union>(set ` set ?ws) \<subseteq> set ?t"
    unfolding split_ws_def using split_acc_chars[of "[]" ?t] by simp
  moreover have "set ?t \<subseteq> lower_char ` set x - set deleted_punct"
    using set_strip[of "lower x"] by (auto simp: translate_delete_def lower_def)
  ultimately show ?thesis by blast
qed

lemma space_not_deleted: "CHR '' '' \<notin> set deleted_punct"
  by (simp add: deleted_punct_def punctuation_def)

lemma lower_space: "lower_char (CHR '' '') = CHR '' ''"
  by (simp add: lower_char_def)

lemma collapsed_dblfree: "dblfree (collapsed x)"
  using collapsed_words[of x] dblfree_join by auto

lemma collapsed_idem: "collapsed (collapsed x) = collapsed x"
proof -
  obtain ws where ok: "words_ok ws" and c: "collapsed x = join '' '' ws"
    and chars: "\<Union>(set ` set ws) \<subseteq> lower_char ` set x - set deleted_punct"
    using collapsed_words by blast
  have sub: "set (join '' '' ws) \<subseteq> insert (CHR '' '') (lower_char ` set x - set deleted_punct)"
    using join_chars[of "'' ''" ws] chars by auto
  have "\<forall>ch\<in>set (join '' '' ws). lower_char ch = ch"
    using sub lower_space lower_char_idem by auto
  then have 1: "lower (join '' '' ws) = join '' '' ws"
    unfolding lower_def by (simp add: map_idI)
  have 2: "strip (join '' '' ws) = join '' '' ws" using ok by (rule strip_join)
  have "\<forall>ch\<in>set (join '' '' ws). ch \<notin> set deleted_punct"
    using sub space_not_deleted by auto
  then have 3: "translate_delete deleted_punct (join '' '' ws) = join '' '' ws"
    by (simp add: translate_delete_def)
  have 4: "split_ws (join '' '' ws) = ws" using ok by (rule split_ws_join)
  have "collapsed (join '' '' ws) = join '' '' ws"
    unfolding collapsed_def deleted_punct_def[symmetric] by (simp add: 1 2 3 4)
  then show ?thesis by (simp add: c)
qed

lemma normalize_title_collapsed:
  "x \<noteq> [] \<Longrightarrow> normalize_title x = replace ''rapport sur l'' ''rapport sur le'' (collapsed x)"
proof -
  assume "x \<noteq> []"
  then have "normalize_title x =
      replace ''  '' '' '' (replace ''rapport sur l'' ''rapport sur le'' (collapsed x))"
    by (simp add: normalize_title_def collapsed_def)
  moreover have "dblfree (replace ''rapport sur l'' ''rapport sur le'' (collapsed x))"
    by (rule dblfree_replace) (simp_all add: collapsed_dblfree)
  ultimately show ?thesis by (simp add: dblfree_replace_id)
qed

lemma normalize_title_keeps_pattern:
  assumes "sublist ''rapport sur l'' (collapsed x)"
  shows "sublist ''rapport sur l'' (normalize_title x)"
proof -
  have ne: "x \<noteq> []" using assms by (auto simp: collapsed_def strip_def lower_def translate_delete_def split_ws_def)
  have "sublist ''rapport sur le'' (replace ''rapport sur l'' ''rapport sur le'' (collapsed x))"
    using assms by (intro replace_present) simp_all
  moreover have "sublist ''rapport sur l'' ''rapport sur le''"
    by (rule prefix_imp_sublist) simp
  ultimately show ?thesis
    unfolding normalize_title_collapsed[OF ne] by (rule sublist_order.order_trans[rotated])
qed

lemma normalize_title_idem_guarded:
  assumes "\<not> sublist ''rapport sur l'' (normalize_title x)"
  shows "normalize_title (normalize_title x) = normalize_title x"
proof (cases "x = []")
  case True
  then show ?thesis by (simp add: normalize_title_def)
next
  case False
  have absent: "\<not> sublist ''rapport sur l'' (collapsed x)"
    using assms normalize_title_keeps_pattern by blast
  then have n: "normalize_title x = collapsed x"
    by (simp add: normalize_title_collapsed[OF False] replace_absent)
  show ?thesis
  proof (cases "collapsed x = []")
    case True
    show ?thesis unfolding n True by (simp add: normalize_title_def)
  next
    case ne: False
    show ?thesis
      unfolding n normalize_title_collapsed[OF ne] collapsed_idem
      using absent by (rule replace_absent)
  qed
qed

section \<open>The title normalizer is not idempotent\<close>

text \<open>
  C6 (as stated): for every string \<open>x\<close>, \<open>normalize(normalize(x)) == normalize(x)\<close>.
  This fails: the substitution replaces \<open>rapport sur l\<close> by \<open>rapport sur le\<close>, which
  still starts with \<open>rapport sur l\<close>, so a second pass appends another \<open>e\<close>.
  On \<open>rapport sur l\<close> the first pass gives \<open>rapport sur le\<close> and the second
  \<open>rapport sur lee\<close>.
\<close>

theorem normalize_title_not_idempotent:
  "normalize_title (normalize_title ''rapport sur l'') \<noteq> normalize_title ''rapport sur l''"
  by code_simp

text \<open>
  C6 (amended): for every string \<open>x\<close> whose normalized title does not contain
  \<open>rapport sur l\<close> (the substitution did not fire), normalizing again changes nothing:
  \<open>normalize(normalize(x)) == normalize(x)\<close>.
\<close>

theorem normalize_title_idempotent_without_substitution:
  assumes "\<not> sublist ''rapport sur l'' (normalize_title x)"
  shows "normalize_title (normalize_title x) = normalize_title x"
  using assms by (rule normalize_title_idem_guarded)

theorem normalize_title_idempotent_witness:
  "\<not> sublist ''rapport sur l'' (normalize_title ''  Charte de  Gouvernance, pour les EEP. '') \<and>
   normalize_title (normalize_title ''  Charte de  Gouvernance, pour les EEP. '') =
     normalize_title ''  Charte de  Gouvernance, pour les EEP. '' \<and>
   normalize_title ''  Charte de  Gouvernance, pour les EEP. '' =
     ''charte de gouvernance pour les eep.''"
proof -
  have v: "normalize_title ''  Charte de  Gouvernance, pour les EEP. '' =
             ''charte de gouvernance pour les eep.''"
    by code_simp
  have h: "\<not> sublist ''rapport sur l'' (normalize_title ''  Charte de  Gouvernance, pour les EEP. '')"
    unfolding v by code_simp
  show ?thesis
    using h v normalize_title_idempotent_without_substitution [OF h] by simp
qed

section \<open>File sizes with a decimal comma\<close>

text \<open>
  C7: \<open>extract_file_size\<close> returns the first match of a number, with an optional
  fractional part after a period or a comma, and a unit, including the fractional part of
  comma decimals such as \<open>1,5 Mo\<close>. The code tries the period pattern first, and that
  pattern already matches the digits after the comma: on \<open>1,5 Mo\<close> the result is
  \<open>5 Mo\<close>, not \<open>1,5 Mo\<close>. The examples of the claim without a comma hold.
\<close>

theorem extract_file_size_comma_decimal:
  "extract_file_size ''1,5 Mo'' = Some ''5 Mo'' \<and>
   extract_file_size ''Fichier 6.92 Mo disponible'' = Some ''6.92 Mo'' \<and>
   extract_file_size ''no size here'' = None"
  by code_simp

section \<open>What the patterns match\<close>

lemma rmatch_suffix: "(g, s') \<in> set (rmatch ic r s) \<Longrightarrow> \<exists>pre. s = pre @ s'"
proof (induction r arbitrary: g s s')
  case (Lit l)
  then show ?case by (auto split: if_splits intro: exI[of _ "take (length l) s"])
next
  case (Rep c lo hi)
  then obtain k where "s' = drop k s" by (auto simp: Let_def)
  then show ?case by (auto intro: exI[of _ "take k s"])
next
  case (Seq r1 r2)
  then obtain g1 s1 g2 where "(g1, s1) \<in> set (rmatch ic r1 s)" "(g2, s') \<in> set (rmatch ic r2 s1)"
    by auto
  then show ?case using Seq.IH by (metis append.assoc)
next
  case (Alt r1 r2)
  then show ?case by auto
next
  case (Opt r)
  then show ?case by auto
next
  case (Group r)
  then show ?case by auto
qed

lemma take_le_takeWhile: "k \<le> length (takeWhile P s) \<Longrightarrow> list_all P (take k s)"
proof -
  assume k: "k \<le> length (takeWhile P s)"
  have "take k s = take k (takeWhile P s @ dropWhile P s)" by simp
  also have "\<dots> = take k (takeWhile P s)" using k by (simp del: takeWhile_dropWhile_id)
  finally have "set (take k s) \<subseteq> set (takeWhile P s)" by (simp add: set_take_subset)
  then show ?thesis by (auto simp: list_all_iff dest: set_takeWhileD)
qed

lemma in_cls_Digit: "in_cls Digit = isdigit"
  by (rule ext) simp

lemma rmatch_Rep:
  "(g, s') \<in> set (rmatch ic (Rep c lo (Some hi)) s) \<Longrightarrow>
     \<exists>k. g = [] \<and> s' = drop k s \<and> lo \<le> k \<and> k \<le> hi \<and> k \<le> length (takeWhile (in_cls c) s)"
  by (auto simp: Let_def)

lemma rmatch_Group:
  "(gs, s') \<in> set (rmatch ic (Group r) s) \<longleftrightarrow>
     (\<exists>g. (g, s') \<in> set (rmatch ic r s) \<and> gs = take (length s - length s') s # g)"
  by force

lemma rmatch_Group_Rep:
  assumes "(gs, s') \<in> set (rmatch ic (Group (Rep c lo (Some hi))) s)"
  shows "\<exists>w. gs = [w] \<and> s = w @ s' \<and> lo \<le> length w \<and> length w \<le> hi \<and> list_all (in_cls c) w"
proof -
  from assms obtain g where g: "(g, s') \<in> set (rmatch ic (Rep c lo (Some hi)) s)"
    and gs: "gs = take (length s - length s') s # g"
    unfolding rmatch_Group by blast
  from rmatch_Rep[OF g] obtain k where k: "lo \<le> k" "k \<le> hi" "k \<le> length (takeWhile (in_cls c) s)"
    and s': "s' = drop k s" and e: "g = []"
    by blast
  have le: "k \<le> length s" using k(3) length_takeWhile_le[of "in_cls c" s] by linarith
  then have "take (length s - length s') s = take k s" by (simp add: s')
  then show ?thesis
    using k s' gs e take_le_takeWhile[OF k(3)] le by (intro exI[of _ "take k s"]) simp
qed

lemma rmatch_Lit_exact: "(gs, s') \<in> set (rmatch False (Lit l) s) \<longleftrightarrow> gs = [] \<and> s = l @ s'"
  by (auto simp: lit_eq_def) (metis append_take_drop_id)

lemma rmatch_Seq:
  "(gs, s') \<in> set (rmatch ic (Seq r1 r2) s) \<longleftrightarrow>
     (\<exists>g1 s1 g2. (g1, s1) \<in> set (rmatch ic r1 s) \<and> (g2, s') \<in> set (rmatch ic r2 s1) \<and> gs = g1 @ g2)"
  by force

lemma rmatch_date_pattern:
  assumes "(gs, s') \<in> set (rmatch False (date_pattern sep) s)"
  shows "\<exists>d m y. gs = [d, m, y] \<and> s = d @ [sep] @ m @ [sep] @ y @ s' \<and> day_month_year d m y"
proof -
  from assms obtain g1 s1 g2 s2 g3 s3 g4 s4 g5 where
    1: "(g1, s1) \<in> set (rmatch False (Group (Rep Digit 1 (Some 2))) s)" and
    2: "(g2, s2) \<in> set (rmatch False (Lit [sep]) s1)" and
    3: "(g3, s3) \<in> set (rmatch False (Group (Rep Digit 1 (Some 2))) s2)" and
    4: "(g4, s4) \<in> set (rmatch False (Lit [sep]) s3)" and
    5: "(g5, s') \<in> set (rmatch False (Group (Rep Digit 4 (Some 4))) s4)" and
    gs: "gs = g1 @ g2 @ g3 @ g4 @ g5"
    unfolding date_pattern_def rmatch_Seq by blast
  from rmatch_Group_Rep[OF 1] obtain d where
    d: "g1 = [d]" "s = d @ s1" "1 \<le> length d" "length d \<le> 2" "list_all isdigit d"
    unfolding in_cls_Digit by auto
  from rmatch_Group_Rep[OF 3] obtain m where
    m: "g3 = [m]" "s2 = m @ s3" "1 \<le> length m" "length m \<le> 2" "list_all isdigit m"
    unfolding in_cls_Digit by auto
  from rmatch_Group_Rep[OF 5] obtain y where
    y: "g5 = [y]" "s4 = y @ s'" "4 \<le> length y" "length y \<le> 4" "list_all isdigit y"
    unfolding in_cls_Digit by auto
  from 2[unfolded rmatch_Lit_exact] 4[unfolded rmatch_Lit_exact]
  have l: "g2 = []" "s1 = [sep] @ s2" "g4 = []" "s3 = [sep] @ s4"
    by simp_all
  have "length d \<in> {1, 2}" "length m \<in> {1, 2}" "length y = 4"
    using d m y by auto
  then show ?thesis
    using d m y l gs by (auto simp: day_month_year_def)
qed

lemma re_search_Some:
  "re_search ic r s = Some gs \<Longrightarrow> \<exists>pre s1 s'. s = pre @ s1 \<and> (gs, s') \<in> set (rmatch ic r s1)"
proof (induction s)
  case Nil
  then obtain m ms where "rmatch ic r [] = m # ms" "gs = fst m"
    by (cases "rmatch ic r []") auto
  then have "[] = [] @ [] \<and> (gs, snd m) \<in> set (rmatch ic r [])" by simp
  then show ?case by (intro exI[of _ "[]"] exI[of _ "snd m"])
next
  case (Cons c cs)
  show ?case
  proof (cases "rmatch ic r (c # cs)")
    case Nil
    then have "re_search ic r cs = Some gs" using Cons.prems by simp
    then obtain pre s1 s' where "cs = pre @ s1" "(gs, s') \<in> set (rmatch ic r s1)"
      using Cons.IH by blast
    then show ?thesis by (intro exI[of _ "c # pre"] exI[of _ s1] exI[of _ s']) simp
  next
    case (Cons m ms)
    then have "gs = fst m" using Cons.prems by simp
    then have "(gs, snd m) \<in> set (rmatch ic r (c # cs))" using Cons by simp
    then show ?thesis by (intro exI[of _ "[]"] exI[of _ "c # cs"] exI[of _ "snd m"]) simp
  qed
qed

lemma re_search_date_pattern:
  assumes "re_search False (date_pattern sep) text = Some gs"
  shows "\<exists>d m y. gs = [d, m, y] \<and> sublist (d @ [sep] @ m @ [sep] @ y) text \<and> day_month_year d m y"
proof -
  from re_search_Some[OF assms] obtain pre s1 s' where
    t: "text = pre @ s1" and "(gs, s') \<in> set (rmatch False (date_pattern sep) s1)" by blast
  from rmatch_date_pattern[OF this(2)] obtain d m y where
    g: "gs = [d, m, y]" "s1 = d @ [sep] @ m @ [sep] @ y @ s'" "day_month_year d m y" by blast
  have "text = pre @ (d @ [sep] @ m @ [sep] @ y) @ s'" using t g(2) by simp
  then have "sublist (d @ [sep] @ m @ [sep] @ y) text" unfolding sublist_def by blast
  then show ?thesis using g by blast
qed

lemma re_search_poste_pattern:
  assumes "re_search False (Seq (Lit l) (date_pattern sep)) text = Some gs"
  shows "\<exists>d m y. gs = [d, m, y] \<and> sublist (d @ [sep] @ m @ [sep] @ y) text \<and> day_month_year d m y"
proof -
  from re_search_Some[OF assms] obtain pre s1 s' where
    t: "text = pre @ s1" and "(gs, s') \<in> set (rmatch False (Seq (Lit l) (date_pattern sep)) s1)"
    by blast
  then obtain s2 where s2: "s1 = l @ s2" "(gs, s') \<in> set (rmatch False (date_pattern sep) s2)"
    unfolding rmatch_Seq rmatch_Lit_exact by auto
  from rmatch_date_pattern[OF this(2)] obtain d m y where
    g: "gs = [d, m, y]" "s2 = d @ [sep] @ m @ [sep] @ y @ s'" "day_month_year d m y" by blast
  have "text = (pre @ l) @ (d @ [sep] @ m @ [sep] @ y) @ s'" using t s2 g(2) by simp
  then have "sublist (d @ [sep] @ m @ [sep] @ y) text" unfolding sublist_def by blast
  then show ?thesis using g by blast
qed

lemma first_date_find:
  "first_date ps text =
     (case List.find (\<lambda>p. re_search False p text \<noteq> None) ps of
        None \<Rightarrow> None
      | Some p \<Rightarrow> map_option (\<lambda>g. g ! 0 @ ''/'' @ g ! 1 @ ''/'' @ g ! 2) (re_search False p text))"
  by (induction ps) (auto split: option.splits)

lemma date_patterns_groups:
  assumes "p \<in> set date_patterns" "re_search False p text = Some gs"
  shows "\<exists>d m y. gs = [d, m, y] \<and> day_month_year d m y \<and>
           (sublist (d @ ''/'' @ m @ ''/'' @ y) text \<or> sublist (d @ ''-'' @ m @ ''-'' @ y) text)"
proof -
  consider "p = date_pattern CHR ''/''" | "p = date_pattern CHR ''-''"
    | "p = Seq (Lit poste_le) (date_pattern CHR ''/'')"
    using assms(1) by (auto simp: date_patterns_def)
  then show ?thesis
  proof cases
    case 1
    then show ?thesis using re_search_date_pattern[of "CHR ''/''" "text" gs] assms(2) by auto
  next
    case 2
    then show ?thesis using re_search_date_pattern[of "CHR ''-''" "text" gs] assms(2) by auto
  next
    case 3
    then show ?thesis using re_search_poste_pattern[of poste_le "CHR ''/''" "text" gs] assms(2) by auto
  qed
qed

lemma date_patterns_empty_text: "p \<in> set date_patterns \<Longrightarrow> re_search False p [] = None"
  by (auto simp: date_patterns_def date_pattern_def lit_eq_def poste_le_def)

section \<open>Dates\<close>

text \<open>
  C8: \<open>extract_date_from_text\<close> tries the patterns of \<open>date_patterns\<close> in their
  order (\<open>DD/MM/YYYY\<close>, \<open>DD-MM-YYYY\<close>, \<open>Post\<acute>e le DD/MM/YYYY\<close>). The first
  pattern that matches anywhere in the text decides: its three groups are a day and a month
  of one or two digits and a year of four digits, they stand in the text separated by
  slashes or by hyphens, and the result is always day, slash, month, slash, year. When no
  pattern matches the result is unset. The two examples of the specification hold.
\<close>

theorem extract_date_from_text_first_pattern_wins:
  "(case List.find (\<lambda>pattern. re_search False pattern text \<noteq> None) date_patterns of
      None \<Rightarrow> extract_date_from_text text = None
    | Some pattern \<Rightarrow>
        (\<exists>d m y. re_search False pattern text = Some [d, m, y] \<and> day_month_year d m y \<and>
           (sublist (d @ ''/'' @ m @ ''/'' @ y) text \<or> sublist (d @ ''-'' @ m @ ''-'' @ y) text) \<and>
           extract_date_from_text text = Some (d @ ''/'' @ m @ ''/'' @ y))) \<and>
   extract_date_from_text (poste_le @ ''26/06/2025'') = Some ''26/06/2025'' \<and>
   extract_date_from_text ''26-06-2025'' = Some ''26/06/2025''"
proof (intro conjI)
  show "case List.find (\<lambda>pattern. re_search False pattern text \<noteq> None) date_patterns of
      None \<Rightarrow> extract_date_from_text text = None
    | Some pattern \<Rightarrow>
        (\<exists>d m y. re_search False pattern text = Some [d, m, y] \<and> day_month_year d m y \<and>
           (sublist (d @ ''/'' @ m @ ''/'' @ y) text \<or> sublist (d @ ''-'' @ m @ ''-'' @ y) text) \<and>
           extract_date_from_text text = Some (d @ ''/'' @ m @ ''/'' @ y))"
  proof (cases "List.find (\<lambda>pattern. re_search False pattern text \<noteq> None) date_patterns")
    case None
    then show ?thesis by (simp add: extract_date_from_text_def first_date_find)
  next
    case (Some p)
    then have p: "p \<in> set date_patterns" and "re_search False p text \<noteq> None"
      by (auto simp: find_Some_iff)
    then obtain gs where gs: "re_search False p text = Some gs" by auto
    from date_patterns_groups[OF p gs] obtain d m y where
      g: "gs = [d, m, y]" "day_month_year d m y"
         "sublist (d @ ''/'' @ m @ ''/'' @ y) text \<or> sublist (d @ ''-'' @ m @ ''-'' @ y) text"
      by blast
    have "text \<noteq> []" using gs date_patterns_empty_text[OF p] by auto
    moreover have "first_date date_patterns text =
        map_option (\<lambda>g. g ! 0 @ ''/'' @ g ! 1 @ ''/'' @ g ! 2) (re_search False p text)"
      by (simp only: first_date_find Some option.case)
    ultimately have "extract_date_from_text text = Some (d @ ''/'' @ m @ ''/'' @ y)"
      by (simp add: extract_date_from_text_def gs g(1))
    then show ?thesis using Some gs g by simp
  qed
next
  show "extract_date_from_text (poste_le @ ''26/06/2025'') = Some ''26/06/2025''" by code_simp
next
  show "extract_date_from_text ''26-06-2025'' = Some ''26/06/2025''" by code_simp
qed

theorem extract_date_from_text_witness:
  "List.find (\<lambda>pattern. re_search False pattern ''le 5-11-2024 ou le 6/12/2025'' \<noteq> None) date_patterns =
     Some (date_pattern CHR ''/'') \<and>
   extract_date_from_text ''le 5-11-2024 ou le 6/12/2025'' = Some ''6/12/2025''"
proof -
  have f: "List.find (\<lambda>pattern. re_search False pattern ''le 5-11-2024 ou le 6/12/2025'' \<noteq> None) date_patterns =
     Some (date_pattern CHR ''/'')"
    by code_simp
  have r: "re_search False (date_pattern CHR ''/'') ''le 5-11-2024 ou le 6/12/2025'' = Some [''6'', ''12'', ''2025'']"
    by code_simp
  show ?thesis
    using extract_date_from_text_first_pattern_wins [of "''le 5-11-2024 ou le 6/12/2025''"] f r
    by simp
qed

section \<open>The deduplication invariant\<close>

lemma foldl_invariant:
  assumes "P t0" "\<And>t x. P t \<Longrightarrow> x \<in> set xs \<Longrightarrow> P (f t x)"
  shows "P (foldl f t0 xs)"
  using assms by (induction xs arbitrary: t0) auto

lemma tracker_inv_empty: "tracker_inv empty_tracker"
  by (simp add: tracker_inv_def empty_tracker_def)

lemma accept_candidate_inv: "tracker_inv t \<Longrightarrow> tracker_inv (accept_candidate c t)"
  by (cases c) (auto simp: accept_candidate_def is_unique_publication_def tracker_inv_def)

lemma structured_section_tier_inv: "tracker_inv (structured_section_tier urljoin soup)"
  unfolding structured_section_tier_def
  by (rule foldl_invariant) (simp_all add: tracker_inv_empty accept_candidate_inv)

lemma raw_link_tier_inv: "tracker_inv (raw_link_tier urljoin soup)"
  unfolding raw_link_tier_def
  by (rule foldl_invariant) (simp_all add: tracker_inv_empty accept_candidate_inv)

lemma known_record_tier_inv: "tracker_inv t \<Longrightarrow> tracker_inv (known_record_tier soup t)"
  unfolding known_record_tier_def
  by (rule foldl_invariant) (simp_all add: accept_candidate_inv)

lemma parse_publications_tracker:
  "\<exists>t. tracker_inv t \<and> parse_publications urljoin soup = publications t"
proof -
  let ?t1 = "if publication_sections soup = [] then raw_link_tier urljoin soup
             else structured_section_tier urljoin soup"
  let ?t2 = "if publications ?t1 = [] then known_record_tier soup ?t1 else ?t1"
  have 1: "tracker_inv ?t1" by (simp add: raw_link_tier_inv structured_section_tier_inv)
  then have "tracker_inv ?t2" by (simp add: known_record_tier_inv)
  moreover have "parse_publications urljoin soup = publications ?t2"
    by (simp add: parse_publications_def parse_publications_run_def)
  ultimately show ?thesis by blast
qed

lemma accept_candidate_rejects:
  "title p = [] \<or> download_url p = [] \<or> download_url p \<in> seen_urls t \<or>
   normalize_title (title p) \<in> seen_titles t \<Longrightarrow> accept_candidate (Some p) t = t"
  by (auto simp: accept_candidate_def is_unique_publication_def)

lemma accept_candidate_prefix: "prefix (publications t) (publications (accept_candidate c t))"
  by (cases c) (auto simp: accept_candidate_def)

section \<open>No duplicates among the parsed publications\<close>

text \<open>
  C1: for every page and every \<open>urljoin\<close>, no two publications returned by
  \<open>parse_publications\<close> share a \<open>download_url\<close>, no two share a normalized title, and
  every one has a non-empty title and a non-empty \<open>download_url\<close>. A candidate \<open>c\<close>
  with an empty title or URL, or whose URL or normalized title the tracker has seen, leaves
  the tracker as it is; a candidate never removes or reorders what was accepted before it
  (first-seen wins).
\<close>

theorem parse_publications_unique:
  "distinct (map download_url (parse_publications urljoin soup)) \<and>
   distinct (map (\<lambda>p. normalize_title (title p)) (parse_publications urljoin soup)) \<and>
   (\<forall>p \<in> set (parse_publications urljoin soup). title p \<noteq> [] \<and> download_url p \<noteq> []) \<and>
   (title c = [] \<or> download_url c = [] \<or> download_url c \<in> seen_urls t \<or>
      normalize_title (title c) \<in> seen_titles t
    \<longrightarrow> accept_candidate (Some c) t = t) \<and>
   prefix (publications t) (publications (accept_candidate (Some c) t))"
proof -
  obtain t' where "tracker_inv t'" "parse_publications urljoin soup = publications t'"
    using parse_publications_tracker by blast
  then show ?thesis
    using accept_candidate_rejects[of c t] accept_candidate_prefix[of t "Some c"]
    by (auto simp: tracker_inv_def list_all_iff)
qed

theorem parse_publications_unique_witness:
  "map download_url (parse_publications example_urljoin example_page) =
     [''https://angspe.ma/a.pdf'', ''https://angspe.ma/c.pdf''] \<and>
   distinct (map download_url (parse_publications example_urljoin example_page)) \<and>
   distinct (map (\<lambda>p. normalize_title (title p))
               (parse_publications example_urljoin example_page)) \<and>
   list_all (\<lambda>p. title p \<noteq> [] \<and> download_url p \<noteq> [])
     (parse_publications example_urljoin example_page) \<and>
   download_url (hd known_publications) \<in> seen_urls (accept_candidate (Some (hd known_publications)) empty_tracker) \<and>
   accept_candidate (Some (hd known_publications))
     (accept_candidate (Some (hd known_publications)) empty_tracker) =
     accept_candidate (Some (hd known_publications)) empty_tracker"
proof -
  have e: "map download_url (parse_publications example_urljoin example_page) =
     [''https://angspe.ma/a.pdf'', ''https://angspe.ma/c.pdf'']"
    by code_simp
  have s: "download_url (hd known_publications) \<in>
             seen_urls (accept_candidate (Some (hd known_publications)) empty_tracker)"
    by (simp add: accept_candidate_def is_unique_publication_def empty_tracker_def
          known_publications_def base_url_def)
  show ?thesis
    using e s
      parse_publications_unique [of example_urljoin example_page "hd known_publications"
        "accept_candidate (Some (hd known_publications)) empty_tracker"]
    by (simp add: list_all_iff)
qed

section \<open>Links to PDF files\<close>

lemma lower_append: "lower (a @ b) = lower a @ lower b"
  by (simp add: lower_def)

lemma lower_dot_pdf: "lower ''.pdf'' = ''.pdf''"
  by code_simp

lemma pdf_pattern_found:
  assumes "re_search True pdf_pattern v \<noteq> None"
  shows "sublist ''.pdf'' (lower v)"
proof -
  from assms obtain gs where "re_search True pdf_pattern v = Some gs" by auto
  from re_search_Some[OF this] obtain pre s1 s' where
    v: "v = pre @ s1" and m: "(gs, s') \<in> set (rmatch True (Lit ''.pdf'') s1)"
    unfolding pdf_pattern_def by blast
  from m have "lower (take 4 s1) = ''.pdf''"
    by (auto simp: lit_eq_def lower_dot_pdf eval_nat_numeral split: if_splits)
  moreover have "lower v = lower pre @ lower (take 4 s1) @ lower (drop 4 s1)"
    unfolding v lower_append[symmetric] by simp
  ultimately have "lower v = lower pre @ ''.pdf'' @ lower (drop 4 s1)" by simp
  then show ?thesis unfolding sublist_def by blast
qed

lemma pdf_links_href:
  assumes "link \<in> set (pdf_links soup)"
  shows "sublist ''.pdf'' (lower (get_attr (fst link) ''href'' ''''))"
proof -
  from assms have "attr_matches pdf_pattern ''href'' (fst link)"
    by (auto simp: pdf_links_def find_all_def)
  then obtain v where "map_of (tag_attrs (fst link)) ''href'' = Some v"
    "re_search True pdf_pattern v \<noteq> None"
    by (auto simp: attr_matches_def split: option.splits)
  then show ?thesis using pdf_pattern_found by (simp add: get_attr_def)
qed

lemma extract_publication_info_file_type:
  assumes "sublist ''.pdf'' (lower (get_attr (fst link) ''href'' ''''))"
    and "extract_publication_info urljoin link = Some p"
  shows "file_type p = ''PDF''"
  using assms
  by (auto simp: extract_publication_info_def Let_def split: if_splits option.splits)

lemma accept_candidate_list_all:
  assumes "list_all P (publications t)" "\<And>p. c = Some p \<Longrightarrow> P p"
  shows "list_all P (publications (accept_candidate c t))"
  using assms by (cases c) (auto simp: accept_candidate_def)

lemma raw_link_tier_file_type:
  "list_all (\<lambda>p. file_type p = ''PDF'') (publications (raw_link_tier urljoin soup))"
  unfolding raw_link_tier_def
proof (rule foldl_invariant)
  show "list_all (\<lambda>p. file_type p = ''PDF'') (publications empty_tracker)"
    by (simp add: empty_tracker_def)
next
  fix t :: tracker and link
  assume t: "list_all (\<lambda>p. file_type p = ''PDF'') (publications t)"
    and l: "link \<in> set (pdf_links soup)"
  show "list_all (\<lambda>p. file_type p = ''PDF'')
          (publications (accept_candidate (extract_publication_info urljoin link) t))"
    using t extract_publication_info_file_type[OF pdf_links_href[OF l]]
    by (rule accept_candidate_list_all)
qed

section \<open>The raw-link tier only yields PDF publications\<close>

text \<open>
  C10: every anchor the raw-link tier processes was selected by a case-insensitive
  \<open>.pdf\<close> match on its \<open>href\<close>, so its lower-cased \<open>href\<close> contains \<open>.pdf\<close>,
  every publication \<open>extract_publication_info\<close> builds from it has \<open>file_type\<close>
  \<open>PDF\<close>, and so has every publication the tier accepts: \<open>Unknown\<close> and \<open>DOC\<close>
  cannot occur on this path.
\<close>

theorem raw_link_tier_only_pdf:
  "(\<forall>link \<in> set (pdf_links soup).
      sublist ''.pdf'' (lower (get_attr (fst link) ''href'' '''')) \<and>
      (\<forall>p. extract_publication_info urljoin link = Some p \<longrightarrow> file_type p = ''PDF'')) \<and>
   (\<forall>p \<in> set (publications (raw_link_tier urljoin soup)). file_type p = ''PDF'')"
proof (intro conjI ballI allI impI)
  fix link
  assume "link \<in> set (pdf_links soup)"
  then show "sublist ''.pdf'' (lower (get_attr (fst link) ''href'' ''''))"
    by (rule pdf_links_href)
next
  fix link p
  assume "link \<in> set (pdf_links soup)" "extract_publication_info urljoin link = Some p"
  then show "file_type p = ''PDF''"
    using extract_publication_info_file_type pdf_links_href by blast
next
  fix p
  assume "p \<in> set (publications (raw_link_tier urljoin soup))"
  then show "file_type p = ''PDF''"
    using raw_link_tier_file_type[of urljoin soup] by (simp add: list_all_iff)
qed

theorem raw_link_tier_only_pdf_witness:
  "map (\<lambda>l. get_attr (fst l) ''href'' '''') (pdf_links example_page) =
     [''/a.pdf'', ''/a.pdf'', ''/b.PDF'', ''/c.pdf''] \<and>
   map download_url (publications (raw_link_tier example_urljoin example_page)) =
     [''https://angspe.ma/a.pdf'', ''https://angspe.ma/c.pdf''] \<and>
   map_option download_url (extract_publication_info example_urljoin (pdf_links example_page ! 2)) =
     Some ''https://angspe.ma/b.PDF'' \<and>
   map_option file_type (extract_publication_info example_urljoin (pdf_links example_page ! 2)) =
     Some ''PDF'' \<and>
   list_all (\<lambda>p. file_type p = ''PDF'') (publications (raw_link_tier example_urljoin example_page))"
proof -
  have c: "map_option download_url
             (extract_publication_info example_urljoin (pdf_links example_page ! 2)) =
           Some ''https://angspe.ma/b.PDF''"
    by code_simp
  then obtain q where q: "extract_publication_info example_urljoin (pdf_links example_page ! 2) = Some q"
    by auto
  have m: "pdf_links example_page ! 2 \<in> set (pdf_links example_page)"
    by code_simp
  have l: "map (\<lambda>l. get_attr (fst l) ''href'' '''') (pdf_links example_page) =
     [''/a.pdf'', ''/a.pdf'', ''/b.PDF'', ''/c.pdf'']"
    by code_simp
  have p: "map download_url (publications (raw_link_tier example_urljoin example_page)) =
     [''https://angspe.ma/a.pdf'', ''https://angspe.ma/c.pdf'']"
    by code_simp
  have "file_type q = ''PDF''"
    using raw_link_tier_only_pdf [of example_page example_urljoin] m q by blast
  then show ?thesis
    using l p c q raw_link_tier_only_pdf [of example_page example_urljoin]
    by (simp add: list_all_iff)
qed

section \<open>The order of the tiers\<close>

lemma structured_section_tier_no_sections:
  "publication_sections soup = [] \<Longrightarrow> publications (structured_section_tier urljoin soup) = []"
  by (simp add: structured_section_tier_def empty_tracker_def)

text \<open>
  C2 (as stated): the raw-link tier runs exactly when the structured-section tier yielded
  zero records. This fails: \<open>parse_publications\<close> enters the loop over links only when
  no section was found. On a page whose one publication section has neither heading nor
  link, the section tier yields no record and the raw-link tier is still skipped, although
  it would have found a publication.
\<close>

theorem raw_link_tier_skipped_counterexample:
  "publication_sections example_empty_section \<noteq> [] \<and>
   publications (structured_section_tier example_urljoin example_empty_section) = [] \<and>
   RawLinks \<notin> set (fst (parse_publications_run example_urljoin example_empty_section)) \<and>
   publications (raw_link_tier example_urljoin example_empty_section) \<noteq> []"
  by code_simp

text \<open>
  C2 (amended): the tiers run in strict order; the raw-link tier runs exactly when the
  search for publication sections found no section at all, and the known-record tier runs
  exactly when the first two tiers together yielded zero records.
\<close>

theorem parse_publications_tier_order:
  "(RawLinks \<in> set (fst (parse_publications_run urljoin soup)) \<longleftrightarrow>
      publication_sections soup = []) \<and>
   (KnownRecords \<in> set (fst (parse_publications_run urljoin soup)) \<longleftrightarrow>
      first_two_tiers urljoin soup = []) \<and>
   fst (parse_publications_run urljoin soup) \<in>
     {[StructuredSections], [StructuredSections, RawLinks], [StructuredSections, KnownRecords],
      [StructuredSections, RawLinks, KnownRecords]}"
  by (auto simp: parse_publications_run_def first_two_tiers_def Let_def
        structured_section_tier_no_sections split: if_splits prod.splits)

theorem parse_publications_tier_order_witness:
  "fst (parse_publications_run example_urljoin example_empty_section) =
     [StructuredSections, KnownRecords] \<and>
   publication_sections example_empty_section \<noteq> [] \<and>
   first_two_tiers example_urljoin example_empty_section = [] \<and>
   fst (parse_publications_run example_urljoin example_page) = [StructuredSections, RawLinks] \<and>
   publication_sections example_page = [] \<and>
   first_two_tiers example_urljoin example_page \<noteq> []"
proof -
  have a: "fst (parse_publications_run example_urljoin example_empty_section) =
     [StructuredSections, KnownRecords]"
    by code_simp
  have b: "fst (parse_publications_run example_urljoin example_page) = [StructuredSections, RawLinks]"
    by code_simp
  show ?thesis
    using a b parse_publications_tier_order [of example_urljoin example_empty_section]
      parse_publications_tier_order [of example_urljoin example_page]
    by simp
qed

section \<open>The sizes that are averaged\<close>

lemma number_pattern_empty: "re_search False number_pattern [] = None"
  by code_simp

lemma megabytes_counted_eq:
  "megabytes_counted fl p =
     (case file_size p of
        None \<Rightarrow> None
      | Some s \<Rightarrow> if s = [] then None else size_megabytes fl s)"
proof (cases "file_size p")
  case None
  then show ?thesis by (simp add: megabytes_counted_def)
next
  case (Some s)
  show ?thesis
  proof (cases "s = []")
    case True
    have "megabytes_counted fl p = None"
      unfolding megabytes_counted_def Some True option.case number_pattern_empty by simp
    then show ?thesis using Some True by simp
  next
    case False
    then show ?thesis
      using Some by (simp add: megabytes_counted_def size_megabytes_def split: option.splits)
  qed
qed

lemma collect_sizes_map_filter:
  "collect_sizes fl pubs = List.map_filter (megabytes_counted fl) pubs"
  by (induction pubs)
     (auto simp: List.map_filter_simps megabytes_counted_eq split: option.splits)

lemma collect_sizes_append:
  "collect_sizes fl (xs @ ys) = collect_sizes fl xs @ collect_sizes fl ys"
  by (simp add: collect_sizes_map_filter List.map_filter_def)

section \<open>Average file size\<close>

lemma size_examples:
  "re_search False number_pattern ''10 Mo'' = Some [''10'']"
  "re_search False number_pattern ''512 ko'' = Some [''512'']"
  "sublist ''Mo'' ''10 Mo''" "\<not> sublist ''Mo'' ''512 ko''" "\<not> sublist ''MB'' ''512 ko''"
  "sublist ''ko'' ''512 ko''"
  by code_simp+

lemma collect_sizes_example:
  "collect_sizes fl [example_publication ''a'' (Some ''10 Mo'') None,
                     example_publication ''b'' (Some ''512 ko'') None] =
     [float_of fl ''10'', divide_by fl (float_of fl ''512'') 1024]"
proof -
  have "size_megabytes fl ''10 Mo'' = Some (float_of fl ''10'')"
    unfolding size_megabytes_def by (simp add: size_examples del: re_search.simps)
  moreover have "size_megabytes fl ''512 ko'' =
      Some (divide_by fl (float_of fl ''512'') 1024)"
    unfolding size_megabytes_def by (simp add: size_examples del: re_search.simps)
  ultimately show ?thesis
    by (simp add: example_publication_def)
qed

text \<open>
  C5 (as stated): sizes in \<open>ko\<close>/\<open>KB\<close> are divided by 1024 and the numeric values of
  all other units are passed through unchanged. This fails for the units other than
  \<open>Mo\<close>/\<open>MB\<close>: a size in \<open>Go\<close>, \<open>GB\<close>, \<open>To\<close> or \<open>TB\<close> matches neither branch
  of the loop and is left out. For the sizes \<open>10 Mo\<close> and \<open>2 Go\<close> the report shows
  \<open>10.00 MB\<close>, the mean of the one size \<open>10\<close>, not \<open>6.00 MB\<close>, the mean of 10 and 2
  (computed in the exact arithmetic; 10 and 10/1 are the same in binary floating point).
\<close>

theorem average_size_skips_other_units:
  "collect_sizes exact_floats
     [example_publication ''a'' (Some ''10 Mo'') None,
      example_publication ''b'' (Some ''2 Go'') None] = [10] \<and>
   average_size exact_floats
     [example_publication ''a'' (Some ''10 Mo'') None,
      example_publication ''b'' (Some ''2 Go'') None] = Some ''10.00 MB'' \<and>
   average_size exact_floats
     [example_publication ''a'' (Some ''10 Mo'') None,
      example_publication ''b'' (Some ''2 Go'') None] \<noteq> Some ''6.00 MB'' \<and>
   (case analyze_publications exact_floats
           [example_publication ''a'' (Some ''10 Mo'') None,
            example_publication ''b'' (Some ''2 Go'') None] of
      Inr (Analysis a) \<Rightarrow> average_file_size a = Some ''10.00 MB''
    | Inr NoPublications \<Rightarrow> False
    | Inl e \<Rightarrow> False)"
proof -
  have a: "average_size exact_floats
     [example_publication ''a'' (Some ''10 Mo'') None,
      example_publication ''b'' (Some ''2 Go'') None] = Some ''10.00 MB''"
    by code_simp
  have b: "case analyze_publications exact_floats
           [example_publication ''a'' (Some ''10 Mo'') None,
            example_publication ''b'' (Some ''2 Go'') None] of
      Inr (Analysis a) \<Rightarrow> average_file_size a = Some ''10.00 MB''
    | Inr NoPublications \<Rightarrow> False
    | Inl e \<Rightarrow> False"
    by code_simp
  have c: "collect_sizes exact_floats
     [example_publication ''a'' (Some ''10 Mo'') None,
      example_publication ''b'' (Some ''2 Go'') None] = [10]"
    by code_simp
  show ?thesis using a b c by simp
qed

text \<open>
  C5 (amended): for every publication list and every floating-point arithmetic, the sizes
  that are averaged are, in list order, those of the publications that count: a size whose
  string contains \<open>Mo\<close> or \<open>MB\<close> (in exactly this spelling) counts with the float of its
  first number unchanged, otherwise a size whose string contains \<open>ko\<close> or \<open>KB\<close> (in
  exactly this spelling) counts with that float divided by 1024, and every other size is
  excluded from both numerator and denominator: the units \<open>Go\<close>, \<open>GB\<close>, \<open>To\<close>,
  \<open>TB\<close>, other spellings such as \<open>Ko\<close>, \<open>mo\<close> or \<open>kB\<close>, a size without a number,
  an unset size. The average is \<open>sum(sizes)/len(sizes)\<close> shown with two decimals and
  \<open>MB\<close>, and unset when no size counts; removing an excluded publication leaves it as it
  is. Whenever \<open>analyze_publications\<close> returns its report, this is the report's average
  file size. For \<open>10 Mo\<close> and \<open>512 ko\<close> the average is (10 + 512/1024)/2, shown as
  \<open>5.25 MB\<close>.
\<close>

theorem average_size_megabytes_and_kilobytes:
  "collect_sizes fl pubs = List.map_filter (megabytes_counted fl) pubs \<and>
   average_size fl pubs =
     (case List.map_filter (megabytes_counted fl) pubs of
        [] \<Rightarrow> None
      | x # xs \<Rightarrow>
          Some (format_2f fl (divide_by fl (sum_of fl (x # xs)) (length (x # xs))) @ '' MB'')) \<and>
   (analyze_publications fl pubs = Inr (Analysis a) \<longrightarrow>
      average_file_size a = average_size fl pubs) \<and>
   (megabytes_counted fl p = None \<longrightarrow>
      average_size fl (before @ p # after) = average_size fl (before @ after)) \<and>
   list_all (\<lambda>s. megabytes_counted fl (example_publication t (Some s) d) = None)
     [''2 Go'', ''3 GB'', ''1 To'', ''1 TB'', ''512 Ko'', ''5 mo'', ''3 kB'', ''Mo''] \<and>
   megabytes_counted fl (example_publication t None d) = None \<and>
   average_size fl [example_publication ''a'' (Some ''10 Mo'') None,
                    example_publication ''b'' (Some ''512 ko'') None] =
     Some (format_2f fl
             (divide_by fl (sum_of fl [float_of fl ''10'',
                                       divide_by fl (float_of fl ''512'') 1024]) 2) @ '' MB'') \<and>
   average_size exact_floats [example_publication ''a'' (Some ''10 Mo'') None,
                              example_publication ''b'' (Some ''512 ko'') None] =
     Some ''5.25 MB''"
proof (intro conjI impI)
  show "collect_sizes fl pubs = List.map_filter (megabytes_counted fl) pubs"
    by (rule collect_sizes_map_filter)
next
  show "average_size fl pubs =
     (case List.map_filter (megabytes_counted fl) pubs of
        [] \<Rightarrow> None
      | x # xs \<Rightarrow>
          Some (format_2f fl (divide_by fl (sum_of fl (x # xs)) (length (x # xs))) @ '' MB''))"
    by (simp add: average_size_def collect_sizes_map_filter Let_def split: list.splits)
next
  assume "analyze_publications fl pubs = Inr (Analysis a)"
  then show "average_file_size a = average_size fl pubs"
    by (auto simp: analyze_publications_def Let_def split: sum.splits if_splits)
next
  assume "megabytes_counted fl p = None"
  then have "collect_sizes fl [p] = []"
    by (simp add: collect_sizes_map_filter List.map_filter_simps)
  then have "collect_sizes fl (before @ p # after) = collect_sizes fl (before @ after)"
    using collect_sizes_append[of fl before "[p] @ after"] collect_sizes_append[of fl "[p]" after]
      collect_sizes_append[of fl before after]
    by simp
  then show "average_size fl (before @ p # after) = average_size fl (before @ after)"
    by (simp add: average_size_def)
next
  have "megabytes_counted fl (example_publication t (Some s) d) = None"
    if "\<not> sublist ''Mo'' s" "\<not> sublist ''MB'' s" "\<not> sublist ''ko'' s" "\<not> sublist ''KB'' s"
      "s \<noteq> []"
    for s using that by (simp add: megabytes_counted_eq example_publication_def size_megabytes_def)
  moreover have "megabytes_counted fl (example_publication t (Some ''Mo'') d) = None"
  proof -
    have "re_search False number_pattern ''Mo'' = None" by code_simp
    then show ?thesis by (simp add: megabytes_counted_def example_publication_def)
  qed
  moreover have
    "\<not> sublist ''Mo'' s \<and> \<not> sublist ''MB'' s \<and> \<not> sublist ''ko'' s \<and> \<not> sublist ''KB'' s \<and> s \<noteq> []"
    if "s \<in> set [''2 Go'', ''3 GB'', ''1 To'', ''1 TB'', ''512 Ko'', ''5 mo'', ''3 kB'']" for s
  proof -
    have "list_all (\<lambda>s. \<not> sublist ''Mo'' s \<and> \<not> sublist ''MB'' s \<and> \<not> sublist ''ko'' s \<and>
             \<not> sublist ''KB'' s \<and> s \<noteq> [])
            [''2 Go'', ''3 GB'', ''1 To'', ''1 TB'', ''512 Ko'', ''5 mo'', ''3 kB'']"
      by code_simp
    then show ?thesis using that unfolding list_all_iff by blast
  qed
  ultimately show "list_all (\<lambda>s. megabytes_counted fl (example_publication t (Some s) d) = None)
     [''2 Go'', ''3 GB'', ''1 To'', ''1 TB'', ''512 Ko'', ''5 mo'', ''3 kB'', ''Mo'']"
    unfolding list_all_iff by auto
next
  show "megabytes_counted fl (example_publication t None d) = None"
    by (simp add: megabytes_counted_def example_publication_def)
next
  show "average_size fl [example_publication ''a'' (Some ''10 Mo'') None,
                    example_publication ''b'' (Some ''512 ko'') None] =
     Some (format_2f fl
             (divide_by fl (sum_of fl [float_of fl ''10'',
                                       divide_by fl (float_of fl ''512'') 1024]) 2) @ '' MB'')"
    unfolding average_size_def collect_sizes_example by (simp add: numeral_2_eq_2)
next
  show "average_size exact_floats [example_publication ''a'' (Some ''10 Mo'') None,
                              example_publication ''b'' (Some ''512 ko'') None] =
     Some ''5.25 MB''"
    by code_simp
qed

theorem average_size_witness:
  "megabytes_counted exact_floats (example_publication ''b'' (Some ''512 Ko'') None) = None \<and>
   average_size exact_floats
     ([example_publication ''a'' (Some ''10 Mo'') None] @
      example_publication ''b'' (Some ''512 Ko'') None #
      [example_publication ''c'' (Some ''512 ko'') None]) = Some ''5.25 MB'' \<and>
   (case analyze_publications exact_floats
           [example_publication ''a'' (Some ''10 Mo'') None,
            example_publication ''c'' (Some ''512 ko'') None] of
      Inr (Analysis a) \<Rightarrow> average_file_size a = Some ''5.25 MB''
    | Inr NoPublications \<Rightarrow> False
    | Inl e \<Rightarrow> False)"
proof -
  let ?a = "example_publication ''a'' (Some ''10 Mo'') None"
  let ?b = "example_publication ''b'' (Some ''512 Ko'') None"
  let ?c = "example_publication ''c'' (Some ''512 ko'') None"
  have h: "megabytes_counted exact_floats ?b = None"
    by code_simp
  have v: "average_size exact_floats ([?a] @ [?c]) = Some ''5.25 MB''"
    by code_simp
  have r: "case analyze_publications exact_floats [?a, ?c] of
      Inr (Analysis a) \<Rightarrow> True
    | Inr NoPublications \<Rightarrow> False
    | Inl e \<Rightarrow> False"
    by code_simp
  then obtain a where a: "analyze_publications exact_floats [?a, ?c] = Inr (Analysis a)"
    by (auto split: sum.splits report.splits)
  have "average_file_size a = average_size exact_floats [?a, ?c]"
    using average_size_megabytes_and_kilobytes [of exact_floats "[?a, ?c]" a] a by blast
  then have "average_file_size a = Some ''5.25 MB''" using v by simp
  moreover have "average_size exact_floats ([?a] @ ?b # [?c]) = Some ''5.25 MB''"
    using average_size_megabytes_and_kilobytes [of exact_floats "[]" _ ?b "[?a]" "[?c]"] h v
    by simp
  ultimately show ?thesis using h a by simp
qed

section \<open>The latest publication\<close>

text \<open>
  C9: for every non-empty publication list with at least one parseable date, the latest
  publication is the first one in list order whose date contains the greatest year. The
  code does this only as long as no publication without a date comes before that one:
  \<open>pub.get('date_posted', '')\<close> returns \<open>None\<close> for a publication whose date was not
  found, and the test \<open>str(latest_year) in date_str\<close> then raises \<open>TypeError\<close>. On an
  undated publication followed by one dated \<open>15/06/2025\<close> the analyzer raises instead of
  returning the second. On the three dates of the specification's example it returns the
  publication of \<open>15/06/2025\<close>.
\<close>

theorem analyze_publications_undated_before_latest:
  "analyze_publications fl
     [example_publication ''a'' None None,
      example_publication ''b'' None (Some ''15/06/2025'')] = Inl TypeError \<and>
   (case analyze_publications fl
           [example_publication ''a'' None (Some ''01/01/2024''),
            example_publication ''b'' None (Some ''15/06/2025''),
            example_publication ''c'' None (Some ''20/06/2025'')] of
      Inr (Analysis a) \<Rightarrow>
        latest_publication a = Some (example_publication ''b'' None (Some ''15/06/2025''))
    | Inr NoPublications \<Rightarrow> False
    | Inl e \<Rightarrow> False)"
  by code_simp

section \<open>Files and the fetch\<close>

lemma file_names_differ:
  "publications_file y \<noteq> analysis_file y" "publications_file y \<noteq> viewer_file y"
  "publications_file y \<noteq> csv_file y" "analysis_file y \<noteq> viewer_file y"
  "analysis_file y \<noteq> csv_file y" "csv_file y \<noteq> viewer_file y"
  "viewer_file y \<noteq> publications_file y" "viewer_file y \<noteq> analysis_file y"
  "viewer_file y \<noteq> csv_file y" "csv_file y \<noteq> publications_file y"
  "csv_file y \<noteq> analysis_file y" "analysis_file y \<noteq> publications_file y"
  by (simp_all add: publications_file_def analysis_file_def viewer_file_def csv_file_def)

lemma fetch_page_html_ok:
  "http e = Response status body \<Longrightarrow> \<not> (400 \<le> status \<and> status < 600) \<Longrightarrow>
   fetch_page_html e w = (Some body, w)"
  by (simp add: fetch_page_html_def)

lemma fetch_page_html_fails:
  "http e = ConnectionFailed \<or> http e = TimedOut \<or>
   (\<exists>status body. http e = Response status body \<and> 400 \<le> status \<and> status < 600) \<Longrightarrow>
   fetch_page_html e w = (None, print [ErrorFetchingPage] w)"
  by (auto simp: fetch_page_html_def)

section \<open>A run that finds nothing\<close>

text \<open>
  C3 (as stated): a run in which the fetch succeeds but zero publications are extracted
  still completes and still writes a new snapshot over the persisted one. This fails when
  the successful response has an empty body: \<open>fetch_page_html\<close> returns the empty
  string, \<open>if not html_content\<close> takes it for a failed fetch, and the run returns
  \<open>(None, None)\<close> without parsing and without writing. For the status 200 with an empty
  body (on which the parser would find no publication) and a stored snapshot of two
  publications, the snapshot is still there after the run and no command was started.
\<close>

theorem run_full_scrape_empty_body_counterexample:
  "fst (fetch_page_html (example_env (Response 200 '''')) example_world) = Some '''' \<and>
   parse_publications (urljoin_of (example_env (Response 200 '''')))
     (html_parser (example_env (Response 200 '''')) '''') = [] \<and>
   fst (run_full_scrape (example_env (Response 200 '''')) example_world) = Inr None \<and>
   fst (run_full_scrape (example_env (Response 200 '''')) example_world) \<noteq>
     Inr (Some ([], NoPublications)) \<and>
   fs (snd (run_full_scrape (example_env (Response 200 '''')) example_world))
      (publications_file 2025) =
     Some (PublicationsJson
             \<lparr>snap_publications = known_publications, snap_analysis = NoPublications,
              scraped_at = ''2025-06-30T08:00:00'', source_url = target_url,
              total_unique_publications = 2\<rparr>) \<and>
   fs (snd (run_full_scrape (example_env (Response 200 '''')) example_world))
      (analysis_file 2025) = None \<and>
   spawned (snd (run_full_scrape (example_env (Response 200 '''')) example_world)) = [] \<and>
   console (snd (run_full_scrape (example_env (Response 200 '''')) example_world)) =
     [Starting, FoundExisting 2, FailedToFetch]"
proof -
  let ?e = "example_env (Response 200 '''')"
  have p: "parse_publications (urljoin_of ?e) (html_parser ?e '''') = []"
    by code_simp
  have n: "get_existing_publications_count ?e (example_world\<lparr>console := ms\<rparr>) = 2" for ms
    by (simp add: get_existing_publications_count_def example_env_def example_world_def
          known_publications_def)
  have f: "fetch_page_html ?e w = (Some '''', w)" for w
    by (simp add: fetch_page_html_def example_env_def)
  have r: "run_full_scrape ?e example_world =
             (Inr None, example_world\<lparr>console := [Starting, FoundExisting 2, FailedToFetch]\<rparr>)"
    by (simp add: run_full_scrape_def Let_def f n print_def, simp add: example_world_def)
  show ?thesis
    using file_names_differ[of 2025]
    by (simp add: r f p, simp add: example_world_def)
qed

text \<open>
  C3 (amended): when the fetch succeeds with a body that is not empty (a response whose
  status is not an error status) and the parser finds no publication in any tier, the run
  completes and returns the empty list with the \<open>no publications\<close> report, and it writes
  this year's snapshot file and analysis file whatever they held before: the new snapshot
  has no publications and the count 0. Nothing keeps the last good data. (Only the CSV
  file is left as it was, since the CSV export is skipped for an empty list.) When the
  fetch succeeds with an empty body, the run is treated as a failed fetch: it returns
  \<open>(None, None)\<close>, leaves every file as it was and starts no command.
\<close>

theorem run_full_scrape_empty_result:
  assumes "http e = Response status body" "\<not> (400 \<le> status \<and> status < 600)"
  shows "(body \<noteq> [] \<and> parse_publications (urljoin_of e) (html_parser e body) = [] \<longrightarrow>
           fst (run_full_scrape e w) = Inr (Some ([], NoPublications)) \<and>
           fs (snd (run_full_scrape e w)) (publications_file (current_year (clock e))) =
             Some (PublicationsJson (empty_snapshot e)) \<and>
           fs (snd (run_full_scrape e w)) (analysis_file (current_year (clock e))) =
             Some (AnalysisJson NoPublications) \<and>
           fs (snd (run_full_scrape e w)) (csv_file (current_year (clock e))) =
             fs w (csv_file (current_year (clock e)))) \<and>
         (body = [] \<longrightarrow>
           fst (run_full_scrape e w) = Inr None \<and>
           fs (snd (run_full_scrape e w)) = fs w \<and>
           spawned (snd (run_full_scrape e w)) = spawned w)"
proof -
  have a: "analyze_publications (floats e) [] = Inr NoPublications"
    by (simp add: analyze_publications_def)
  have full: "fst (run_full_scrape e w) = Inr (Some ([], NoPublications)) \<and>
           fs (snd (run_full_scrape e w)) (publications_file (current_year (clock e))) =
             Some (PublicationsJson (empty_snapshot e)) \<and>
           fs (snd (run_full_scrape e w)) (analysis_file (current_year (clock e))) =
             Some (AnalysisJson NoPublications) \<and>
           fs (snd (run_full_scrape e w)) (csv_file (current_year (clock e))) =
             fs w (csv_file (current_year (clock e)))"
    if b: "body \<noteq> [] \<and> parse_publications (urljoin_of e) (html_parser e body) = []"
    using b file_names_differ[of "current_year (clock e)"]
    by (simp add: run_full_scrape_def Let_def fetch_page_html_ok[OF assms(1,2)] a
          save_results_def generate_standalone_viewer_def generate_dynamic_viewer_def
          print_def empty_snapshot_def split: option.splits)
  have empty: "fst (run_full_scrape e w) = Inr None \<and>
           fs (snd (run_full_scrape e w)) = fs w \<and>
           spawned (snd (run_full_scrape e w)) = spawned w"
    if b: "body = []"
  proof -
    have f: "fetch_page_html e w' = (Some [], w')" for w'
      using fetch_page_html_ok[OF assms(1,2)] b by simp
    show ?thesis
      by (simp add: run_full_scrape_def Let_def f print_def)
  qed
  show ?thesis using full empty by blast
qed

theorem run_full_scrape_empty_result_witness:
  "parse_publications (urljoin_of (example_env (Response 200 ''<html></html>'')))
     (html_parser (example_env (Response 200 ''<html></html>'')) ''<html></html>'') = [] \<and>
   fs example_world (publications_file 2025) =
     Some (PublicationsJson
             \<lparr>snap_publications = known_publications, snap_analysis = NoPublications,
              scraped_at = ''2025-06-30T08:00:00'', source_url = target_url,
              total_unique_publications = 2\<rparr>) \<and>
   fst (run_full_scrape (example_env (Response 200 ''<html></html>'')) example_world) =
     Inr (Some ([], NoPublications)) \<and>
   fs (snd (run_full_scrape (example_env (Response 200 ''<html></html>'')) example_world))
      (publications_file 2025) =
     Some (PublicationsJson
             \<lparr>snap_publications = [], snap_analysis = NoPublications,
              scraped_at = ''2025-07-01T08:00:00'', source_url = target_url,
              total_unique_publications = 0\<rparr>) \<and>
   fst (run_full_scrape (example_env (Response 204 [])) example_world) = Inr None \<and>
   fs (snd (run_full_scrape (example_env (Response 204 [])) example_world)) =
     fs example_world"
proof -
  let ?e = "example_env (Response 200 ''<html></html>'')"
  let ?e' = "example_env (Response 204 [])"
  have h1: "http ?e = Response 200 ''<html></html>''" by (simp add: example_env_def)
  have h2: "\<not> (400 \<le> (200::nat) \<and> (200::nat) < 600)" by simp
  have h3: "''<html></html>'' \<noteq> []" by simp
  have h4: "parse_publications (urljoin_of ?e) (html_parser ?e ''<html></html>'') = []"
    by code_simp
  have y: "current_year (clock ?e) = 2025" "isoformat (clock ?e) = ''2025-07-01T08:00:00''"
    by (simp_all add: example_env_def)
  have h1': "http ?e' = Response 204 []" by (simp add: example_env_def)
  have h2': "\<not> (400 \<le> (204::nat) \<and> (204::nat) < 600)" by simp
  show ?thesis
    using h3 h4 run_full_scrape_empty_result [OF h1 h2, of example_world]
      run_full_scrape_empty_result [OF h1' h2', of example_world]
    by (simp add: y example_world_def empty_snapshot_def)
qed

section \<open>A failed fetch\<close>

text \<open>
  C4: when the request fails to connect, times out, or returns an error status (400 to
  599, the statuses for which \<open>raise_for_status\<close> raises), \<open>run_full_scrape\<close> returns
  the failure value \<open>(None, None)\<close>, leaves every file as it was and starts no command.
  Its console shows the start, the existing count if there is one, and the two failure
  lines; the lines that announce parsing and analysis are not among them, and the outcome
  is the same whatever the parser and \<open>urljoin\<close> are.
\<close>

theorem run_full_scrape_fetch_failure:
  assumes "http e = ConnectionFailed \<or> http e = TimedOut \<or>
           (\<exists>status body. http e = Response status body \<and> 400 \<le> status \<and> status < 600)"
  shows "fst (run_full_scrape e w) = Inr None \<and>
         fs (snd (run_full_scrape e w)) = fs w \<and>
         spawned (snd (run_full_scrape e w)) = spawned w \<and>
         console (snd (run_full_scrape e w)) =
           console w @ [Starting] @
           (if 0 < get_existing_publications_count e w
            then [FoundExisting (get_existing_publications_count e w)] else []) @
           [ErrorFetchingPage, FailedToFetch] \<and>
         run_full_scrape (e\<lparr>html_parser := parser, urljoin_of := uj\<rparr>) w = run_full_scrape e w"
proof -
  have c: "get_existing_publications_count e (w\<lparr>console := ms\<rparr>) =
           get_existing_publications_count e w"
    for ms by (simp add: get_existing_publications_count_def)
  have c': "get_existing_publications_count (e\<lparr>html_parser := parser, urljoin_of := uj\<rparr>) w' =
            get_existing_publications_count e w'" for w'
    by (simp add: get_existing_publications_count_def)
  have f': "http (e\<lparr>html_parser := parser, urljoin_of := uj\<rparr>) = ConnectionFailed \<or>
            http (e\<lparr>html_parser := parser, urljoin_of := uj\<rparr>) = TimedOut \<or>
            (\<exists>status body. http (e\<lparr>html_parser := parser, urljoin_of := uj\<rparr>) =
               Response status body \<and> 400 \<le> status \<and> status < 600)"
    using assms by simp
  show ?thesis
    by (simp add: run_full_scrape_def Let_def fetch_page_html_fails[OF assms]
          fetch_page_html_fails[OF f'] c c' print_def)
qed

theorem run_full_scrape_fetch_failure_witness:
  "fst (run_full_scrape (example_env (Response 503 ''Service Unavailable'')) example_world) =
     Inr None \<and>
   fs (snd (run_full_scrape (example_env (Response 503 ''Service Unavailable'')) example_world)) =
     fs example_world \<and>
   fst (run_full_scrape (example_env TimedOut) example_world) = Inr None \<and>
   console (snd (run_full_scrape (example_env TimedOut) example_world)) =
     [Starting, FoundExisting 2, ErrorFetchingPage, FailedToFetch]"
proof -
  have h: "http (example_env (Response 503 ''Service Unavailable'')) = ConnectionFailed \<or>
           http (example_env (Response 503 ''Service Unavailable'')) = TimedOut \<or>
           (\<exists>status body. http (example_env (Response 503 ''Service Unavailable'')) =
              Response status body \<and> 400 \<le> status \<and> status < 600)"
    by (simp add: example_env_def)
  have t: "http (example_env TimedOut) = ConnectionFailed \<or>
           http (example_env TimedOut) = TimedOut \<or>
           (\<exists>status body. http (example_env TimedOut) =
              Response status body \<and> 400 \<le> status \<and> status < 600)"
    by (simp add: example_env_def)
  have n: "get_existing_publications_count (example_env TimedOut) example_world = 2"
    by (simp add: get_existing_publications_count_def example_env_def example_world_def
          known_publications_def)
  show ?thesis
    using run_full_scrape_fetch_failure [OF h, of example_world]
      run_full_scrape_fetch_failure [OF t, of example_world] n
    by (simp add: example_world_def)
qed

end
